theory Spec2Isabelle
  imports Complex_Main "HOL-Library.Product_Lexorder" "HOL-Library.Multiset"
begin

section \<open>JavaScript numbers\<close>

text \<open>
  The export handlers compute with JavaScript numbers, which are IEEE 754 doubles. A
  number is a rational (every finite double is one), an infinity or NaN. The two zeros
  are identified: every divisor in the handlers is a canvas dimension or a quotient of
  two canvas dimensions, so it is never the negative zero.
\<close>

datatype jsnum = Fin rat | PInf | NInf | NaN

text \<open>The number of binary digits of a natural number.\<close>

fun bit_length :: "nat \<Rightarrow> nat" where
  "bit_length n = (if n = 0 then 0 else Suc (bit_length (n div 2)))"

text \<open>For a positive \<open>x\<close>, the exponent \<open>e\<close> with \<open>2 ^ e \<le> x < 2 ^ (e + 1)\<close>.\<close>

definition floor_log2 :: "rat \<Rightarrow> int" where
  "floor_log2 x =
     (if 1 \<le> x then int (bit_length (nat \<lfloor>x\<rfloor>)) - 1
      else - int (bit_length (nat (\<lceil>1 / x\<rceil> - 1))))"

text \<open>Rounding to the nearest integer, a tie going to the even one.\<close>

definition round_half_even :: "rat \<Rightarrow> int" where
  "round_half_even x =
     (let f = \<lfloor>x\<rfloor>; r = x - of_int f
      in if r < 1 / 2 then f else if 1 / 2 < r then f + 1 else if even f then f else f + 1)"

text \<open>
  The double an exact result is stored as: rounding to nearest, ties to even, with a
  significand of 53 bits. Doubles near \<open>x\<close> are the multiples of \<open>2 ^ (e - 52)\<close>, where
  \<open>e\<close> is the exponent of \<open>x\<close> and at least \<open>- 1022\<close> (below that the doubles are
  subnormal and equally spaced); a result that rounds to \<open>2 ^ 1024\<close> or more is an
  infinity.
\<close>

definition round_double :: "rat \<Rightarrow> jsnum" where
  "round_double x =
     (if x = 0 then Fin 0
      else let a = \<bar>x\<bar>;
               e = max (floor_log2 a) (- 1022);
               q = (if 52 \<le> e then 2 ^ nat (e - 52) else 1 / 2 ^ nat (52 - e));
               y = of_int (round_half_even (a / q)) * q
           in if 2 ^ 1024 \<le> y then (if 0 < x then PInf else NInf)
              else Fin (if 0 < x then y else - y))"

text \<open>
  The operators \<open>-\<close>, \<open>*\<close> and \<open>/\<close>. The first argument says how the exact result of
  an operation on two finite numbers is stored: \<open>round_double\<close> in a JavaScript engine,
  \<open>Fin\<close> in exact arithmetic. A division by zero gives an infinity or NaN, not HOL's 0.
\<close>

fun js_sub :: "(rat \<Rightarrow> jsnum) \<Rightarrow> jsnum \<Rightarrow> jsnum \<Rightarrow> jsnum" where
  "js_sub number NaN _ = NaN"
| "js_sub number _ NaN = NaN"
| "js_sub number (Fin a) (Fin b) = number (a - b)"
| "js_sub number (Fin a) PInf = NInf"
| "js_sub number (Fin a) NInf = PInf"
| "js_sub number PInf PInf = NaN"
| "js_sub number PInf _ = PInf"
| "js_sub number NInf NInf = NaN"
| "js_sub number NInf _ = NInf"

fun js_mul :: "(rat \<Rightarrow> jsnum) \<Rightarrow> jsnum \<Rightarrow> jsnum \<Rightarrow> jsnum" where
  "js_mul number NaN _ = NaN"
| "js_mul number _ NaN = NaN"
| "js_mul number (Fin a) (Fin b) = number (a * b)"
| "js_mul number (Fin a) PInf = (if a = 0 then NaN else if 0 < a then PInf else NInf)"
| "js_mul number (Fin a) NInf = (if a = 0 then NaN else if 0 < a then NInf else PInf)"
| "js_mul number PInf (Fin b) = (if b = 0 then NaN else if 0 < b then PInf else NInf)"
| "js_mul number NInf (Fin b) = (if b = 0 then NaN else if 0 < b then NInf else PInf)"
| "js_mul number PInf PInf = PInf"
| "js_mul number PInf NInf = NInf"
| "js_mul number NInf PInf = NInf"
| "js_mul number NInf NInf = PInf"

fun js_div :: "(rat \<Rightarrow> jsnum) \<Rightarrow> jsnum \<Rightarrow> jsnum \<Rightarrow> jsnum" where
  "js_div number NaN _ = NaN"
| "js_div number _ NaN = NaN"
| "js_div number (Fin a) (Fin b) =
     (if b \<noteq> 0 then number (a / b) else if a = 0 then NaN else if 0 < a then PInf else NInf)"
| "js_div number (Fin a) PInf = Fin 0"
| "js_div number (Fin a) NInf = Fin 0"
| "js_div number PInf (Fin b) = (if 0 \<le> b then PInf else NInf)"
| "js_div number NInf (Fin b) = (if 0 \<le> b then NInf else PInf)"
| "js_div number PInf _ = NaN"
| "js_div number NInf _ = NaN"

text \<open>The comparison \<open>a > b\<close>: false as soon as one side is NaN.\<close>

fun js_gt :: "jsnum \<Rightarrow> jsnum \<Rightarrow> bool" where
  "js_gt (Fin a) (Fin b) = (b < a)"
| "js_gt PInf (Fin b) = True"
| "js_gt PInf NInf = True"
| "js_gt (Fin a) NInf = True"
| "js_gt _ _ = False"

section \<open>Strings\<close>

text \<open>
  A string is a list of characters, the characters below 128 being ASCII.
  \<open>toUpperCase\<close> maps an ASCII string letter by letter. On a string with a character
  beyond ASCII the result depends on the Unicode case tables of the engine (it can even
  be longer than the string, as for the sharp s); those tables are not modelled, and the
  result is left unspecified. \<open>substring\<close> is JavaScript's on non-negative integer
  arguments: both bounds are clamped to the length and swapped when the first is the
  larger.
\<close>

definition toUpperCase_char :: "char \<Rightarrow> char" where
  "toUpperCase_char c =
     (let n = (of_char c :: nat) in if 97 \<le> n \<and> n \<le> 122 then char_of (n - 32) else c)"

definition toUpperCase_beyond_ASCII :: "string \<Rightarrow> string" where
  "toUpperCase_beyond_ASCII = undefined"

definition toUpperCase :: "string \<Rightarrow> string" where
  "toUpperCase s =
     (if list_all (\<lambda>c. (of_char c :: nat) < 128) s then map toUpperCase_char s
      else toUpperCase_beyond_ASCII s)"

definition substring :: "nat \<Rightarrow> nat \<Rightarrow> 'a list \<Rightarrow> 'a list" where
  "substring start stop s =
     (let a = min start (length s); b = min stop (length s)
      in take (max a b - min a b) (drop (min a b) s))"

section \<open>The document region, the renderer and the document writer\<close>

text \<open>
  The inline style of the invoice element: the properties the handlers write (the empty
  string when the property is not declared) and the other declarations.
\<close>

record style =
  style_position :: string
  style_left :: string
  style_top :: string
  style_width :: string
  style_maxWidth :: string
  style_zIndex :: string
  style_transform :: string
  style_other :: "(string \<times> string) list"

text \<open>An element with no inline declaration, as the invoice element is rendered.\<close>

definition plain_style :: style where
  "plain_style =
     \<lparr>style_position = [], style_left = [], style_top = [], style_width = [],
      style_maxWidth = [], style_zIndex = [], style_transform = [], style_other = []\<rparr>"

text \<open>
  What \<open>html2canvas\<close> resolves to: a canvas, of which only the size is read. The
  width and the height are non-negative integers of pixels, which a number holds as
  they are.
\<close>

record canvas =
  canvas_width :: nat
  canvas_height :: nat

text \<open>
  One call \<open>pdf.addImage(imgData, 'PNG', x, y, width, height)\<close>, with the page it
  draws on (jsPDF draws on the page added last; pages are counted from 0).
\<close>

record placement =
  page_index :: nat
  img_x :: jsnum
  img_y :: jsnum
  img_width :: jsnum
  img_height :: jsnum

text \<open>A jsPDF document: the number of its pages and the images drawn, in call order.\<close>

record pdf =
  pages :: nat
  images :: "placement list"

type_synonym exn = string

datatype writer_call = ToDataURL | AddImage placement | AddPage | Save string

text \<open>
  What one export attempt runs in: what the awaited \<open>html2canvas\<close> call gives (a
  rejection or a canvas), the page size jsPDF reports
  (\<open>pdf.internal.pageSize.getWidth()\<close> and \<open>getHeight()\<close>, in millimetres), which calls
  to the canvas and to jsPDF throw, and how the arithmetic stores an exact result.
\<close>

record env =
  html2canvas :: "exn + canvas"
  getWidth :: rat
  getHeight :: rat
  throws :: "writer_call \<Rightarrow> exn option"
  number :: "rat \<Rightarrow> jsnum"

definition new_jsPDF :: pdf where
  "new_jsPDF = \<lparr>pages = 1, images = []\<rparr>"

definition addImage :: "env \<Rightarrow> pdf \<Rightarrow> jsnum \<Rightarrow> jsnum \<Rightarrow> jsnum \<Rightarrow> jsnum \<Rightarrow> exn + pdf" where
  "addImage e d x y w h =
     (let p = \<lparr>page_index = pages d - 1, img_x = x, img_y = y, img_width = w, img_height = h\<rparr>
      in case throws e (AddImage p) of
           Some err \<Rightarrow> Inl err
         | None \<Rightarrow> Inr (d\<lparr>images := images d @ [p]\<rparr>))"

definition addPage :: "env \<Rightarrow> pdf \<Rightarrow> exn + pdf" where
  "addPage e d =
     (case throws e AddPage of
        Some err \<Rightarrow> Inl err
      | None \<Rightarrow> Inr (d\<lparr>pages := pages d + 1\<rparr>))"

definition save :: "env \<Rightarrow> pdf \<Rightarrow> string \<Rightarrow> exn + string \<times> pdf" where
  "save e d filename =
     (case throws e (Save filename) of
        Some err \<Rightarrow> Inl err
      | None \<Rightarrow> Inr (filename, d))"

text \<open>
  What one call of a handler leaves behind: the style of the invoice element (None when
  the ref was null), the file handed to \<open>pdf.save\<close>, the messages of \<open>console.error\<close>
  and \<open>alert\<close>, and the error the handler's promise is rejected with.
\<close>

record result =
  element_style :: "style option"
  download :: "(string \<times> pdf) option"
  console_error :: "string list"
  alerts :: "string list"
  rejected :: "exn option"

section \<open>handleDownloadPDF of src/src/types.ts (InvoicePrint, lines 55 to 117)\<close>

text \<open>
  The \<open>while (heightLeft > 0)\<close> loop of lines 103 to 108. A loop that never ends has
  the value None.
\<close>

partial_function (option) while_heightLeft ::
  "env \<Rightarrow> jsnum \<Rightarrow> jsnum \<Rightarrow> jsnum \<Rightarrow> jsnum \<Rightarrow> pdf \<Rightarrow> (exn + pdf) option" where
  "while_heightLeft e pdfHeight width height heightLeft d =
     (if js_gt heightLeft (Fin 0) then
        (let position = js_sub (number e) heightLeft height in
         case addPage e d of
           Inl err \<Rightarrow> Some (Inl err)
         | Inr d1 \<Rightarrow>
            (case addImage e d1 (Fin 0) position width height of
               Inl err \<Rightarrow> Some (Inl err)
             | Inr d2 \<Rightarrow>
                 while_heightLeft e pdfHeight width height
                   (js_sub (number e) heightLeft pdfHeight) d2))
      else Some (Inr d))"

declare while_heightLeft.simps [code]

text \<open>The body of the \<open>try\<close> block, lines 71 to 110: Inl is a thrown error.\<close>

definition try_block :: "env \<Rightarrow> string \<Rightarrow> (exn + string \<times> pdf) option" where
  "try_block e order_id =
     (case html2canvas e of
        Inl err \<Rightarrow> Some (Inl err)
      | Inr canvas \<Rightarrow>
         (case throws e ToDataURL of
            Some err \<Rightarrow> Some (Inl err)
          | None \<Rightarrow>
             (let d = new_jsPDF;
                  pdfWidth = Fin (getWidth e);
                  pdfHeight = Fin (getHeight e);
                  canvasWidth = Fin (of_nat (canvas_width canvas));
                  canvasHeight = Fin (of_nat (canvas_height canvas));
                  ratio = js_div (number e) canvasWidth canvasHeight;
                  width = pdfWidth;
                  height = js_div (number e) width ratio;
                  heightLeft = height;
                  position = Fin 0
              in case addImage e d (Fin 0) position width height of
                   Inl err \<Rightarrow> Some (Inl err)
                 | Inr d1 \<Rightarrow>
                    (case while_heightLeft e pdfHeight width height
                            (js_sub (number e) heightLeft pdfHeight) d1 of
                       None \<Rightarrow> None
                     | Some (Inl err) \<Rightarrow> Some (Inl err)
                     | Some (Inr d2) \<Rightarrow>
                         Some (save e d2 (''Invoice-'' @ toUpperCase (substring 0 8 order_id) @ ''.pdf''))))))"

text \<open>
  The names of the properties that the inline style of an element declares. The
  snapshot \<open>{ ...invoiceElement.style }\<close> of line 58 copies the own enumerable
  properties of the style object: every property by its name, with the empty string for
  one that is not declared, and one index \<open>0\<close>, \<open>1\<close>, ... per declaration.
\<close>

definition declared :: "style \<Rightarrow> string list" where
  "declared st =
     map fst (filter (\<lambda>(name, v). v \<noteq> [])
       [(''position'', style_position st), (''left'', style_left st), (''top'', style_top st),
        (''width'', style_width st), (''max-width'', style_maxWidth st),
        (''z-index'', style_zIndex st), (''transform'', style_transform st)])
     @ map fst (style_other st)"

text \<open>
  The \<open>finally\<close> block, line 115, run on what the \<open>try\<close> and the \<open>catch\<close> left.
  \<open>Object.assign\<close> writes the snapshot back, the indices first. The style object
  refuses a write to an index with a TypeError: when the snapshot has one, nothing is put
  back and the error leaves the handler, whose promise is rejected. When the element had
  no inline declaration the snapshot has no index, and each property the handler wrote
  gets its saved value.
\<close>

definition finally_block :: "style \<Rightarrow> result \<Rightarrow> result" where
  "finally_block originalStyles res =
     (if declared originalStyles = [] then
        res\<lparr>element_style :=
              map_option (\<lambda>st. st
                 \<lparr>style_position := style_position originalStyles,
                  style_left := style_left originalStyles,
                  style_top := style_top originalStyles,
                  style_width := style_width originalStyles,
                  style_maxWidth := style_maxWidth originalStyles,
                  style_zIndex := style_zIndex originalStyles,
                  style_transform := style_transform originalStyles\<rparr>) (element_style res)\<rparr>
      else res\<lparr>rejected := Some ''TypeError''\<rparr>)"

text \<open>
  The handler: the early return on a null ref, the style changes of lines 60 to 66, the
  \<open>try\<close> block, the \<open>catch\<close> (which reports and swallows the error) and the \<open>finally\<close>.
\<close>

definition handleDownloadPDF :: "env \<Rightarrow> string \<Rightarrow> style option \<Rightarrow> result option" where
  "handleDownloadPDF e order_id invoiceRef_current =
     (case invoiceRef_current of
        None \<Rightarrow>
          Some \<lparr>element_style = None, download = None, console_error = [], alerts = [],
                rejected = None\<rparr>
      | Some invoiceElement \<Rightarrow>
          (let originalStyles = invoiceElement;
               mutated = invoiceElement
                 \<lparr>style_position := ''absolute'', style_left := ''-9999px'', style_top := ''0'',
                  style_width := ''794px'', style_maxWidth := ''none'', style_zIndex := ''-1'',
                  style_transform := ''scale(1)''\<rparr>
           in case try_block e order_id of
                None \<Rightarrow> None
              | Some (Inl error) \<Rightarrow>
                  Some (finally_block originalStyles
                    \<lparr>element_style = Some mutated, download = None,
                     console_error = [''Error generating PDF:'', error],
                     alerts = [''Gagal membuat PDF. Silakan coba lagi.''],
                     rejected = None\<rparr>)
              | Some (Inr file) \<Rightarrow>
                  Some (finally_block originalStyles
                    \<lparr>element_style = Some mutated, download = Some file,
                     console_error = [], alerts = [], rejected = None\<rparr>)))"

section \<open>handleDownloadPDF of src/unnamed/part_001 (InvoicePrint, lines 31 to 76)\<close>

text \<open>The \<open>while (remainingHeight > 0)\<close> loop of lines 67 to 73.\<close>

partial_function (option) while_remainingHeight ::
  "env \<Rightarrow> jsnum \<Rightarrow> jsnum \<Rightarrow> jsnum \<Rightarrow> jsnum \<Rightarrow> pdf \<Rightarrow> (exn + pdf) option" where
  "while_remainingHeight e pdfHeight imgWidth position remainingHeight d =
     (if js_gt remainingHeight (Fin 0) then
        (let heightToPrint = (if js_gt remainingHeight pdfHeight then pdfHeight else remainingHeight) in
         case addImage e d (Fin 0) position imgWidth heightToPrint of
           Inl err \<Rightarrow> Some (Inl err)
         | Inr d1 \<Rightarrow>
            (let remainingHeight1 = js_sub (number e) remainingHeight pdfHeight;
                 position1 = js_sub (number e) position pdfHeight
             in if js_gt remainingHeight1 (Fin 0) then
                  (case addPage e d1 of
                     Inl err \<Rightarrow> Some (Inl err)
                   | Inr d2 \<Rightarrow> while_remainingHeight e pdfHeight imgWidth position1 remainingHeight1 d2)
                else while_remainingHeight e pdfHeight imgWidth position1 remainingHeight1 d1))
      else Some (Inr d))"

declare while_remainingHeight.simps [code]

text \<open>Lines 56 to 75, after the style has been put back: Inl is a thrown error.\<close>

definition write_document :: "env \<Rightarrow> string \<Rightarrow> canvas \<Rightarrow> (exn + string \<times> pdf) option" where
  "write_document e order_id canvas =
     (case throws e ToDataURL of
        Some err \<Rightarrow> Some (Inl err)
      | None \<Rightarrow>
         (let d = new_jsPDF;
              pdfWidth = Fin (getWidth e);
              pdfHeight = Fin (getHeight e);
              imgWidth = pdfWidth;
              imgHeight = js_div (number e)
                            (js_mul (number e) (Fin (of_nat (canvas_height canvas))) pdfWidth)
                            (Fin (of_nat (canvas_width canvas)));
              position = Fin 0;
              remainingHeight = imgHeight
          in case while_remainingHeight e pdfHeight imgWidth position remainingHeight d of
               None \<Rightarrow> None
             | Some (Inl err) \<Rightarrow> Some (Inl err)
             | Some (Inr d1) \<Rightarrow> Some (save e d1 (''Invoice-'' @ order_id @ ''.pdf''))))"

text \<open>
  The handler. There is no \<open>try\<close>: an error thrown by \<open>html2canvas\<close> rejects the
  handler's promise before lines 53 and 54 put the two saved properties back.
\<close>

definition handleDownloadPDF_part_001 :: "env \<Rightarrow> string \<Rightarrow> style option \<Rightarrow> result option" where
  "handleDownloadPDF_part_001 e order_id invoiceRef_current =
     (case invoiceRef_current of
        None \<Rightarrow>
          Some \<lparr>element_style = None, download = None, console_error = [], alerts = [],
                rejected = None\<rparr>
      | Some st \<Rightarrow>
          (let originalWidth = style_width st;
               originalMaxWidth = style_maxWidth st;
               mutated = st\<lparr>style_width := ''100%'', style_maxWidth := ''none''\<rparr>
           in case html2canvas e of
                Inl err \<Rightarrow>
                  Some \<lparr>element_style = Some mutated, download = None, console_error = [],
                        alerts = [], rejected = Some err\<rparr>
              | Inr canvas \<Rightarrow>
                  (let restored = mutated\<lparr>style_width := originalWidth,
                                          style_maxWidth := originalMaxWidth\<rparr>
                   in case write_document e order_id canvas of
                        None \<Rightarrow> None
                      | Some (Inl err) \<Rightarrow>
                          Some \<lparr>element_style = Some restored, download = None,
                                console_error = [], alerts = [], rejected = Some err\<rparr>
                      | Some (Inr file) \<Rightarrow>
                          Some \<lparr>element_style = Some restored, download = Some file,
                                console_error = [], alerts = [], rejected = None\<rparr>)))"

text \<open>
  A run in which the capture gives a canvas of the given size, jsPDF reports the given
  page size, no call to the canvas or to jsPDF throws and the arithmetic is exact: no
  result is rounded.
\<close>

definition quiet_env :: "nat \<Rightarrow> nat \<Rightarrow> rat \<Rightarrow> rat \<Rightarrow> env" where
  "quiet_env sourceWidth sourceHeight pageWidth pageHeight =
     \<lparr>html2canvas = Inr \<lparr>canvas_width = sourceWidth, canvas_height = sourceHeight\<rparr>,
      getWidth = pageWidth, getHeight = pageHeight, throws = (\<lambda>_. None), number = Fin\<rparr>"

text \<open>
  The same run in a JavaScript engine: every result of the arithmetic is rounded to a
  double.
\<close>

definition double_env :: "nat \<Rightarrow> nat \<Rightarrow> rat \<Rightarrow> rat \<Rightarrow> env" where
  "double_env sourceWidth sourceHeight pageWidth pageHeight =
     \<lparr>html2canvas = Inr \<lparr>canvas_width = sourceWidth, canvas_height = sourceHeight\<rparr>,
      getWidth = pageWidth, getHeight = pageHeight, throws = (\<lambda>_. None),
      number = round_double\<rparr>"

text \<open>The document a call handed to \<open>pdf.save\<close>, if it saved one.\<close>

definition saved_document :: "result option \<Rightarrow> pdf option" where
  "saved_document r =
     (case r of
        None \<Rightarrow> None
      | Some res \<Rightarrow> (case download res of None \<Rightarrow> None | Some (name, d) \<Rightarrow> Some d))"

text \<open>The name of the file a call handed to \<open>pdf.save\<close>, if it saved one.\<close>

definition saved_filename :: "result option \<Rightarrow> string option" where
  "saved_filename r =
     (case r of
        None \<Rightarrow> None
      | Some res \<Rightarrow> (case download res of None \<Rightarrow> None | Some (name, d) \<Rightarrow> Some name))"

text \<open>
  The height of the captured image once scaled to the page width; both handlers
  compute it, as \<open>width / (canvasWidth / canvasHeight)\<close> and as
  \<open>(canvas.height * pdfWidth) / canvas.width\<close>.
\<close>

definition scaledHeight :: "nat \<Rightarrow> nat \<Rightarrow> rat \<Rightarrow> rat" where
  "scaledHeight sourceWidth sourceHeight pageWidth =
     of_nat sourceHeight * pageWidth / of_nat sourceWidth"

section \<open>Line items, order totals and the monthly summary\<close>

text \<open>Modelled from the spec: the error kind InvalidInput of section 7 (a quantity, a
  rate or a number of days outside its domain). The code that computes subtotals,
  totals and the monthly summary is not among the sources; only the declarations of the
  \<open>order_items\<close> and \<open>orders\<close> tables and of the Order and OrderItem interfaces are.\<close>

datatype error = InvalidInput

text \<open>Modelled from the spec: the currency rounding of section 4.1, to 2 decimal places,
  half away from zero.\<close>

definition round2 :: "rat \<Rightarrow> rat" where
  "round2 x =
     (if 0 \<le> x then of_int \<lfloor>x * 100 + 1 / 2\<rfloor> / 100
      else - (of_int \<lfloor>(- x) * 100 + 1 / 2\<rfloor> / 100))"

text \<open>Modelled from the spec: the LineItem of section 3.\<close>

record line_item =
  car_type :: string
  quantity :: int
  daily_rate :: rat
  days :: int

text \<open>Modelled from the spec: the preconditions of the LineItemCalculator of section 4.1,
  \<open>quantity \<ge> 1\<close>, \<open>daily_rate \<ge> 0\<close> and \<open>days \<ge> 1\<close>, on an item.\<close>

definition valid_item :: "line_item \<Rightarrow> bool" where
  "valid_item item = (1 \<le> quantity item \<and> 0 \<le> daily_rate item \<and> 1 \<le> days item)"

text \<open>Modelled from the spec: the LineItemCalculator of section 4.1. Values outside the
  domain are the caller error InvalidInput; inside it the result is the rounded
  product.\<close>

definition subtotal :: "int \<Rightarrow> rat \<Rightarrow> int \<Rightarrow> error + rat" where
  "subtotal qty rate n =
     (if 1 \<le> qty \<and> 0 \<le> rate \<and> 1 \<le> n then Inr (round2 (of_int qty * rate * of_int n))
      else Inl InvalidInput)"

text \<open>Modelled from the spec: the sum of the OrderTotalAggregator of section 4.2. Each
  subtotal is computed again from the item, never read from stored data; the empty
  list gives 0.\<close>

fun sum_subtotals :: "line_item list \<Rightarrow> error + rat" where
  "sum_subtotals [] = Inr 0"
| "sum_subtotals (item # items) =
     (case subtotal (quantity item) (daily_rate item) (days item) of
        Inl err \<Rightarrow> Inl err
      | Inr s \<Rightarrow> (case sum_subtotals items of Inl err \<Rightarrow> Inl err | Inr t \<Rightarrow> Inr (s + t)))"

text \<open>Modelled from the spec: the OrderTotalAggregator of section 4.2, the sum of the
  subtotals under the same rounding.\<close>

definition total :: "line_item list \<Rightarrow> error + rat" where
  "total items = (case sum_subtotals items of Inl err \<Rightarrow> Inl err | Inr t \<Rightarrow> Inr (round2 t))"

text \<open>Modelled from the spec: a calendar date, the raw date value of section 9.\<close>

record date =
  date_year :: int
  date_month :: nat
  date_day :: nat

text \<open>Modelled from the spec: the Order of section 3, of which the summary reads the
  order date and the stored total.\<close>

record order =
  customer_name :: string
  order_date :: date
  total_amount :: rat

text \<open>Modelled from the spec: the MonthlyReportRow of section 3.\<close>

record monthly_report_row =
  year :: int
  month :: nat
  order_count :: nat
  total_revenue :: rat

text \<open>Modelled from the spec: the calendar month of an order's \<open>order_date\<close>, by which
  section 4.3 groups the orders.\<close>

definition month_key :: "order \<Rightarrow> int \<times> nat" where
  "month_key ord = (date_year (order_date ord), date_month (order_date ord))"

text \<open>Modelled from the spec: the (year, month) a row of the summary stands for.\<close>

definition row_key :: "monthly_report_row \<Rightarrow> int \<times> nat" where
  "row_key r = (year r, month r)"

text \<open>Modelled from the spec: the MonthlyAggregator of section 4.3, without a date range
  and without dense fill: one row per (year, month) that has an order, in ascending
  order of (year, month), with the number of its orders and the sum of their stored
  totals. The report component is not among the sources.\<close>

definition summarize :: "order list \<Rightarrow> monthly_report_row list" where
  "summarize orders =
     map (\<lambda>(y, m).
            \<lparr>year = y, month = m,
             order_count = length (filter (\<lambda>ord. month_key ord = (y, m)) orders),
             total_revenue = sum_list (map total_amount (filter (\<lambda>ord. month_key ord = (y, m)) orders))\<rparr>)
         (sort (remdups (map month_key orders)))"

section \<open>Doubles\<close>

lemma floor_rat_numeral: "\<lfloor>numeral a / numeral b :: rat\<rfloor> = numeral a div numeral b"
  using floor_divide_of_int_eq [of "numeral a" "numeral b", where ?'a = rat] by simp

lemma ceiling_rat_numeral: "\<lceil>numeral a / numeral b :: rat\<rceil> = - (- numeral a div numeral b)"
  using ceiling_divide_eq_div [of "numeral a" "numeral b", where ?'a = rat] by simp

lemma bit_length_le: "n < 2 ^ b \<Longrightarrow> bit_length n \<le> b"
proof (induction b arbitrary: n)
  case 0
  then show ?case by simp
next
  case (Suc b)
  then have "n div 2 < 2 ^ b" by simp
  then have "bit_length (n div 2) \<le> b" by (rule Suc.IH)
  then show ?case by (subst bit_length.simps) simp
qed

lemma bit_length_gt: "2 ^ b \<le> n \<Longrightarrow> b < bit_length n"
proof (induction b arbitrary: n)
  case 0
  then show ?case by (subst bit_length.simps) simp
next
  case (Suc b)
  then have "2 ^ b \<le> n div 2" by simp
  then have "b < bit_length (n div 2)" by (rule Suc.IH)
  moreover have "0 < (2 :: nat) ^ Suc b" by simp
  with Suc.prems have "n \<noteq> 0" by linarith
  ultimately show ?case by (subst bit_length.simps) simp
qed

lemma floor_log2_less:
  assumes "0 < a" and "a < 2 ^ m"
  shows "floor_log2 a < int m"
proof (cases "1 \<le> a")
  case True
  have "\<lfloor>a\<rfloor> < 2 ^ m" using assms(2) by (simp add: floor_less_iff)
  then have "nat \<lfloor>a\<rfloor> < 2 ^ m" using True by (simp add: nat_less_iff)
  then have "bit_length (nat \<lfloor>a\<rfloor>) \<le> m" by (rule bit_length_le)
  then show ?thesis using True by (simp add: floor_log2_def)
next
  case False
  then have "1 < 1 / a" using assms(1) by simp
  then have "1 < \<lceil>1 / a\<rceil>" by (simp add: less_ceiling_iff)
  then have "(1 :: nat) \<le> nat (\<lceil>1 / a\<rceil> - 1)" by linarith
  then have "2 ^ 0 \<le> nat (\<lceil>1 / a\<rceil> - 1)" by simp
  then have "0 < bit_length (nat (\<lceil>1 / a\<rceil> - 1))" by (rule bit_length_gt)
  then show ?thesis using False by (simp add: floor_log2_def)
qed

lemma round_half_even_of_int: "round_half_even (of_int z) = z"
  by (simp add: round_half_even_def)

text \<open>
  A number \<open>n / 2 ^ k\<close> whose numerator has at most 53 bits is a double: it is stored
  as it is.
\<close>

lemma round_double_dyadic:
  assumes n: "\<bar>n\<bar> < 2 ^ 53" and k: "k \<le> 52"
  shows "round_double (of_int n / 2 ^ k) = Fin (of_int n / 2 ^ k)"
proof (cases "n = 0")
  case True
  then show ?thesis by (simp add: round_double_def)
next
  case False
  define x :: rat where "x = of_int n / 2 ^ k"
  define a :: rat where "a = \<bar>x\<bar>"
  have a: "a = of_int \<bar>n\<bar> / 2 ^ k" by (simp add: a_def x_def)
  have x0: "x \<noteq> 0" using False by (simp add: x_def)
  have apos: "0 < a" using x0 by (simp add: a_def)
  have "(of_int \<bar>n\<bar> :: rat) < of_int (2 ^ 53)" using n by (simp only: of_int_less_iff)
  also have "(of_int (2 ^ 53) :: rat) = 2 ^ (53 - k) * 2 ^ k"
    using k by (simp flip: power_add)
  finally have a_less: "a < 2 ^ (53 - k)" by (simp add: a pos_divide_less_eq)
  define e where "e = max (floor_log2 a) (- 1022)"
  have "floor_log2 a < int (53 - k)" using apos a_less by (rule floor_log2_less)
  then have e_le: "e \<le> 52 - int k" using k by (simp add: e_def)
  define j where "j = nat (52 - e)"
  have j: "k \<le> j" "e = 52 - int j" using e_le by (simp_all add: j_def)
  have q: "(if 52 \<le> e then 2 ^ nat (e - 52) else 1 / 2 ^ nat (52 - e)) = (1 / 2 ^ j :: rat)"
  proof (cases "52 \<le> e")
    case True
    with e_le have "e = 52" by linarith
    then show ?thesis by (simp add: j_def)
  next
    case False
    then show ?thesis by (simp add: j_def)
  qed
  have "(2 :: rat) ^ j = 2 ^ (j - k) * 2 ^ k" using j(1) by (simp flip: power_add)
  then have aq: "a / (1 / 2 ^ j) = of_int (\<bar>n\<bar> * 2 ^ (j - k))" by (simp add: a)
  have y: "of_int (round_half_even (a / (1 / 2 ^ j))) * (1 / 2 ^ j) = a"
    unfolding aq round_half_even_of_int using aq by (simp add: field_simps)
  have "a \<le> of_int \<bar>n\<bar>"
    unfolding a by (simp add: divide_le_eq_1 pos_divide_le_eq mult_le_cancel_left1)
  also have "(of_int \<bar>n\<bar> :: rat) < of_int (2 ^ 53)" using n by (simp only: of_int_less_iff)
  also have "(of_int (2 ^ 53) :: rat) = 2 ^ 53" by simp
  also have "(2 :: rat) ^ 53 \<le> 2 ^ 1024" by (rule power_increasing) simp_all
  finally have small: "\<not> 2 ^ 1024 \<le> a" by simp
  have "round_double x = Fin (if 0 < x then a else - a)"
    unfolding round_double_def Let_def a_def [symmetric] e_def [symmetric] q y
    using x0 small by (simp only: if_False)
  also have "(if 0 < x then a else - a) = x" by (simp add: a_def)
  finally show ?thesis by (simp add: x_def)
qed

lemma round_double_int:
  assumes "\<bar>n\<bar> < 2 ^ 53"
  shows "round_double (of_int n) = Fin (of_int n)"
  using round_double_dyadic [OF assms, of 0] by simp

text \<open>The quotients that are rounded in the runs evaluated below.\<close>

lemma round_double_397_1100:
  "round_double (397 / 1100) = Fin (6501560189331225 / 18014398509481984)"
  apply (simp add: round_double_def Let_def)
  apply (simp add: floor_log2_def floor_rat_numeral ceiling_rat_numeral)
  apply (simp add: round_half_even_def Let_def floor_rat_numeral)
  done

lemma round_double_231000_397:
  "round_double (231000 / 397) = Fin (5118129693022791 / 8796093022208)"
  apply (simp add: round_double_def Let_def)
  apply (simp add: floor_log2_def floor_rat_numeral ceiling_rat_numeral)
  apply (simp add: round_half_even_def Let_def floor_rat_numeral)
  done



lemma height_794_2200:
  "js_div round_double (Fin 210) (js_div round_double (Fin 794) (Fin 2200)) =
     Fin (5118129693022791 / 8796093022208)"
  apply (simp add: round_double_397_1100)
  apply (simp add: round_double_def Let_def)
  apply (simp add: floor_log2_def floor_rat_numeral ceiling_rat_numeral)
  apply (simp add: round_half_even_def Let_def floor_rat_numeral)
  done



lemma height_part_001_794_2200:
  "js_div round_double (js_mul round_double (Fin 2200) (Fin 210)) (Fin 794) =
     Fin (5118129693022791 / 8796093022208)"
  using round_double_int [of 462000] by (simp add: round_double_231000_397)

section \<open>The loops on a run in which nothing throws\<close>

lemma ceil_step:
  fixes hl ph :: rat
  assumes "0 < ph"
  shows "\<lceil>(hl - ph) / ph\<rceil> = \<lceil>hl / ph\<rceil> - 1"
proof -
  have "(hl - ph) / ph = hl / ph - 1" using assms by (simp add: diff_divide_distrib)
  then show ?thesis by simp
qed

lemma upt_Suc_map: "[0..<Suc n] = 0 # map Suc [0..<n]"
  by (simp add: upt_conv_Cons map_Suc_upt del: upt_Suc)

lemma while_heightLeft_stop:
  "\<not> js_gt hl (Fin 0) \<Longrightarrow> while_heightLeft e ph w h hl d = Some (Inr d)"
  by (subst while_heightLeft.simps) simp

lemma while_heightLeft_step:
  "js_gt hl (Fin 0) \<Longrightarrow> throws e = (\<lambda>_. None) \<Longrightarrow>
     while_heightLeft e ph w h hl d =
     while_heightLeft e ph w h (js_sub (number e) hl ph)
       \<lparr>pages = pages d + 1,
        images = images d @ [\<lparr>page_index = pages d, img_x = Fin 0,
                               img_y = js_sub (number e) hl h, img_width = w, img_height = h\<rparr>]\<rparr>"
  by (cases d, subst while_heightLeft.simps) (simp add: Let_def addPage_def addImage_def)

lemma while_remainingHeight_stop:
  "\<not> js_gt rem (Fin 0) \<Longrightarrow> while_remainingHeight e ph w pos rem d = Some (Inr d)"
  by (subst while_remainingHeight.simps) simp

lemma while_remainingHeight_step:
  "js_gt rem (Fin 0) \<Longrightarrow> throws e = (\<lambda>_. None) \<Longrightarrow>
     while_remainingHeight e ph w pos rem d =
     while_remainingHeight e ph w (js_sub (number e) pos ph) (js_sub (number e) rem ph)
       \<lparr>pages = (if js_gt (js_sub (number e) rem ph) (Fin 0) then pages d + 1 else pages d),
        images = images d @ [\<lparr>page_index = pages d - 1, img_x = Fin 0, img_y = pos,
                               img_width = w,
                               img_height = (if js_gt rem ph then ph else rem)\<rparr>]\<rparr>"
  by (cases d, subst while_remainingHeight.simps) (simp add: Let_def addPage_def addImage_def)



text \<open>The placements themselves, in exact arithmetic.\<close>

lemma while_remainingHeight_quiet:
  assumes q: "throws e = (\<lambda>_. None)" and num: "number e = Fin" and ph: "0 < ph"
  shows "nat \<lceil>rem / ph\<rceil> = n \<Longrightarrow> 1 \<le> pages d \<Longrightarrow>
     while_remainingHeight e (Fin ph) (Fin w) (Fin pos) (Fin rem) d =
     Some (Inr (d\<lparr>pages := pages d + (n - 1),
                  images := images d @
                    map (\<lambda>k. \<lparr>page_index = pages d - 1 + k, img_x = Fin 0,
                              img_y = Fin (pos - of_nat k * ph),
                              img_width = Fin w, img_height = Fin (min (rem - of_nat k * ph) ph)\<rparr>) [0..<n]\<rparr>))"
proof (induction n arbitrary: rem pos d)
  case 0
  then have "rem / ph \<le> 0" by (simp add: ceiling_le_zero)
  with ph have "rem \<le> 0" by (simp add: divide_le_0_iff)
  then show ?case by (subst while_remainingHeight.simps) simp
next
  case (Suc n)
  then have "0 < \<lceil>rem / ph\<rceil>" by linarith
  then have "0 < rem / ph" by (simp add: zero_less_ceiling)
  with ph have pos: "0 < rem" by (simp add: zero_less_divide_iff)
  have n: "nat \<lceil>(rem - ph) / ph\<rceil> = n" using Suc.prems ph by (simp add: ceil_step)
  have htp: "(if ph < rem then ph else rem) = min rem ph" by (simp add: min_def)
  show ?case
  proof (cases "0 < rem - ph")
    case True
    then have "0 < (rem - ph) / ph" using ph by (simp add: zero_less_divide_iff)
    then have "0 < \<lceil>(rem - ph) / ph\<rceil>" by (simp add: zero_less_ceiling)
    with n have n1: "1 \<le> n" by linarith
    let ?p = "\<lparr>page_index = pages d - 1, img_x = Fin 0, img_y = Fin pos,
                              img_width = Fin w, img_height = Fin (min rem ph)\<rparr>"
    let ?d2 = "d\<lparr>images := images d @ [?p], pages := pages d + 1\<rparr>"
    have step: "while_remainingHeight e (Fin ph) (Fin w) (Fin pos) (Fin rem) d =
        while_remainingHeight e (Fin ph) (Fin w) (Fin (pos - ph)) (Fin (rem - ph)) ?d2"
      apply (subst while_remainingHeight.simps)
      using True
      apply (simp add: pos addPage_def addImage_def q num htp)
      done
    have "1 \<le> pages ?d2" by simp
    note IH = Suc.IH [OF n this]
    show ?thesis
      unfolding step IH
      using n1 Suc.prems(2)
      by (simp add: upt_Suc_map comp_def algebra_simps del: upt_Suc)
  next
    case False
    then have "(rem - ph) / ph \<le> 0" using ph by (simp add: divide_le_0_iff)
    then have "\<lceil>(rem - ph) / ph\<rceil> \<le> 0" by (simp add: ceiling_le_zero)
    with n have n0: "n = 0" by linarith
    have stop: "\<And>d1. while_remainingHeight e (Fin ph) (Fin w) (Fin (pos - ph)) (Fin (rem - ph)) d1 = Some (Inr d1)"
      using False by (subst while_remainingHeight.simps) simp
    show ?thesis
      apply (subst while_remainingHeight.simps)
      using False n0
      apply (simp add: pos addImage_def q num stop htp)
      done
  qed
qed

lemma while_heightLeft_quiet:
  assumes q: "throws e = (\<lambda>_. None)" and num: "number e = Fin" and ph: "0 < ph"
  shows "nat \<lceil>hl / ph\<rceil> = n \<Longrightarrow>
     while_heightLeft e (Fin ph) (Fin w) (Fin h) (Fin hl) d =
     Some (Inr (d\<lparr>pages := pages d + n,
                  images := images d @
                    map (\<lambda>k. \<lparr>page_index = pages d + k, img_x = Fin 0,
                              img_y = Fin (hl - of_nat k * ph - h),
                              img_width = Fin w, img_height = Fin h\<rparr>) [0..<n]\<rparr>))"
proof (induction n arbitrary: hl d)
  case 0
  then have "hl / ph \<le> 0" by (simp add: ceiling_le_zero)
  with ph have "hl \<le> 0" by (simp add: divide_le_0_iff)
  then show ?case by (subst while_heightLeft.simps) simp
next
  case (Suc n)
  then have "0 < \<lceil>hl / ph\<rceil>" by linarith
  then have "0 < hl / ph" by (simp add: zero_less_ceiling)
  with ph have pos: "0 < hl" by (simp add: zero_less_divide_iff)
  have "nat \<lceil>(hl - ph) / ph\<rceil> = n" using Suc.prems ph by (simp add: ceil_step)
  note IH = Suc.IH [OF this]
  show ?case
    apply (subst while_heightLeft.simps)
    apply (simp add: pos addPage_def addImage_def q num IH upt_Suc_map comp_def algebra_simps del: upt_Suc)
    done
qed

text \<open>
  A loop entered with an infinite height never leaves by itself: it returns only when a
  call to jsPDF throws.
\<close>

lemma while_heightLeft_PInf:
  assumes "while_heightLeft e (Fin x) w h PInf d = Some r"
  shows "\<exists>err. r = Inl err"
proof -
  have "Fin x = Fin x \<longrightarrow> PInf = PInf \<longrightarrow> (\<exists>err. r = Inl err)"
  proof (rule while_heightLeft.raw_induct
      [where P = "\<lambda>e ph w h hl d r. ph = Fin x \<longrightarrow> hl = PInf \<longrightarrow> (\<exists>err. r = Inl err)",
        OF _ assms])
    fix f e ph w h hl d r
    assume IH: "\<And>e ph w h hl d r. f e ph w h hl d = Some r \<Longrightarrow>
        ph = Fin x \<longrightarrow> hl = PInf \<longrightarrow> (\<exists>err. r = Inl err)"
      and eq: "(if js_gt hl (Fin 0)
      then let position = js_sub (number e) hl h
           in case addPage e d of Inl err \<Rightarrow> Some (Inl err)
              | Inr d1 \<Rightarrow>
                  case addImage e d1 (Fin 0) position w h of
                  Inl err \<Rightarrow> Some (Inl err)
                  | Inr d2 \<Rightarrow> f e ph w h (js_sub (number e) hl ph) d2
      else Some (Inr d)) = Some r"
    show "ph = Fin x \<longrightarrow> hl = PInf \<longrightarrow> (\<exists>err. r = Inl err)"
    proof (intro impI)
      assume inf: "ph = Fin x" "hl = PInf"
      show "\<exists>err. r = Inl err"
      proof (cases "addPage e d")
        case (Inl err)
        with eq inf show ?thesis by (auto simp: Let_def)
      next
        case d1: (Inr d1)
        show ?thesis
        proof (cases "addImage e d1 (Fin 0) (js_sub (number e) PInf h) w h")
          case (Inl err)
          with eq d1 inf show ?thesis by (auto simp: Let_def)
        next
          case (Inr d2)
          with eq d1 inf have "f e (Fin x) w h PInf d2 = Some r" by (simp add: Let_def)
          from IH [OF this] show ?thesis by simp
        qed
      qed
    qed
  qed
  then show ?thesis by simp
qed

lemma while_remainingHeight_PInf:
  assumes "while_remainingHeight e (Fin x) w pos PInf d = Some r"
  shows "\<exists>err. r = Inl err"
proof -
  have "Fin x = Fin x \<longrightarrow> PInf = PInf \<longrightarrow> (\<exists>err. r = Inl err)"
  proof (rule while_remainingHeight.raw_induct
      [where P = "\<lambda>e ph w pos rem d r. ph = Fin x \<longrightarrow> rem = PInf \<longrightarrow> (\<exists>err. r = Inl err)",
        OF _ assms])
    fix f e ph w pos rem d r
    assume IH: "\<And>e ph w pos rem d r. f e ph w pos rem d = Some r \<Longrightarrow>
        ph = Fin x \<longrightarrow> rem = PInf \<longrightarrow> (\<exists>err. r = Inl err)"
      and eq: "(if js_gt rem (Fin 0) then
        (let heightToPrint = (if js_gt rem ph then ph else rem) in
         case addImage e d (Fin 0) pos w heightToPrint of
           Inl err \<Rightarrow> Some (Inl err)
         | Inr d1 \<Rightarrow>
            (let remainingHeight1 = js_sub (number e) rem ph;
                 position1 = js_sub (number e) pos ph
             in if js_gt remainingHeight1 (Fin 0) then
                  (case addPage e d1 of
                     Inl err \<Rightarrow> Some (Inl err)
                   | Inr d2 \<Rightarrow> f e ph w position1 remainingHeight1 d2)
                else f e ph w position1 remainingHeight1 d1))
      else Some (Inr d)) = Some r"
    show "ph = Fin x \<longrightarrow> rem = PInf \<longrightarrow> (\<exists>err. r = Inl err)"
    proof (intro impI)
      assume inf: "ph = Fin x" "rem = PInf"
      show "\<exists>err. r = Inl err"
      proof (cases "addImage e d (Fin 0) pos w (Fin x)")
        case (Inl err)
        with eq inf show ?thesis by (auto simp: Let_def)
      next
        case d1: (Inr d1)
        show ?thesis
        proof (cases "addPage e d1")
          case (Inl err)
          with eq d1 inf show ?thesis by (auto simp: Let_def)
        next
          case (Inr d2)
          with eq d1 inf have "f e (Fin x) w (js_sub (number e) pos (Fin x)) PInf d2 = Some r"
            by (simp add: Let_def)
          from IH [OF this] show ?thesis by simp
        qed
      qed
    qed
  qed
  then show ?thesis by simp
qed

lemma ceiling_pos_nat:
  fixes x :: rat
  assumes "0 < x"
  shows "nat \<lceil>x\<rceil> = Suc (nat (\<lceil>x\<rceil> - 1))"
proof -
  from assms have "0 < \<lceil>x\<rceil>" by (simp add: zero_less_ceiling)
  then show ?thesis by linarith
qed

lemma quiet_env_sel:
  "html2canvas (quiet_env cw ch pw ph) = Inr \<lparr>canvas_width = cw, canvas_height = ch\<rparr>"
  "getWidth (quiet_env cw ch pw ph) = pw"
  "getHeight (quiet_env cw ch pw ph) = ph"
  "throws (quiet_env cw ch pw ph) = (\<lambda>_. None)"
  "number (quiet_env cw ch pw ph) = Fin"
  by (simp_all add: quiet_env_def)

lemma double_env_sel:
  "html2canvas (double_env cw ch pw ph) = Inr \<lparr>canvas_width = cw, canvas_height = ch\<rparr>"
  "getWidth (double_env cw ch pw ph) = pw"
  "getHeight (double_env cw ch pw ph) = ph"
  "throws (double_env cw ch pw ph) = (\<lambda>_. None)"
  "number (double_env cw ch pw ph) = round_double"
  by (simp_all add: double_env_def)

lemma try_block_quiet:
  assumes cw: "0 < cw" and ch: "0 < ch" and pw: "0 < pw" and ph: "0 < ph"
  shows "try_block (quiet_env cw ch pw ph) oid =
    Some (Inr (''Invoice-'' @ toUpperCase (substring 0 8 oid) @ ''.pdf'',
      \<lparr>pages = nat \<lceil>scaledHeight cw ch pw / ph\<rceil>,
       images = map (\<lambda>k. \<lparr>page_index = k, img_x = Fin 0, img_y = Fin (- (of_nat k * ph)),
                           img_width = Fin pw, img_height = Fin (scaledHeight cw ch pw)\<rparr>)
                    [0..<nat \<lceil>scaledHeight cw ch pw / ph\<rceil>]\<rparr>))"
proof -
  let ?H = "scaledHeight cw ch pw"
  let ?e = "quiet_env cw ch pw ph"
  let ?d1 = "\<lparr>pages = 1, images = [\<lparr>page_index = 0, img_x = Fin 0, img_y = Fin 0,
                     img_width = Fin pw, img_height = Fin ?H\<rparr>]\<rparr>"
  have Hpos: "0 < ?H" using cw ch pw by (simp add: scaledHeight_def)
  have height: "?H = pw * rat_of_nat ch / rat_of_nat cw"
    by (simp add: scaledHeight_def mult.commute)
  let ?n = "nat (\<lceil>?H / ph\<rceil> - 1)"
  have n: "nat \<lceil>(?H - ph) / ph\<rceil> = ?n" using ph by (simp add: ceil_step)
  have N: "nat \<lceil>?H / ph\<rceil> = Suc ?n"
    using Hpos ph by (intro ceiling_pos_nat) simp
  note loop = while_heightLeft_quiet [OF quiet_env_sel(4) quiet_env_sel(5) ph n,
      where w = pw and h = "?H" and d = "?d1"]
  have eq: "try_block ?e oid =
     (case while_heightLeft ?e (Fin ph) (Fin pw) (Fin ?H) (Fin (?H - ph)) ?d1 of
        None \<Rightarrow> None
      | Some (Inl err) \<Rightarrow> Some (Inl err)
      | Some (Inr d2) \<Rightarrow>
          Some (save ?e d2 (''Invoice-'' @ toUpperCase (substring 0 8 oid) @ ''.pdf'')))"
    using cw ch
    by (simp add: try_block_def Let_def quiet_env_sel addImage_def new_jsPDF_def height)
  show ?thesis
    unfolding eq loop N
    by (simp add: save_def quiet_env_sel upt_Suc_map comp_def algebra_simps del: upt_Suc)
qed

lemma write_document_quiet:
  assumes cw: "0 < cw" and ch: "0 < ch" and pw: "0 < pw" and ph: "0 < ph"
  shows "write_document (quiet_env cw ch pw ph) oid \<lparr>canvas_width = cw, canvas_height = ch\<rparr> =
    Some (Inr (''Invoice-'' @ oid @ ''.pdf'',
      \<lparr>pages = nat \<lceil>scaledHeight cw ch pw / ph\<rceil>,
       images = map (\<lambda>k. \<lparr>page_index = k, img_x = Fin 0, img_y = Fin (- (of_nat k * ph)),
                           img_width = Fin pw,
                           img_height = Fin (min (scaledHeight cw ch pw - of_nat k * ph) ph)\<rparr>)
                    [0..<nat \<lceil>scaledHeight cw ch pw / ph\<rceil>]\<rparr>))"
proof -
  let ?H = "scaledHeight cw ch pw"
  let ?e = "quiet_env cw ch pw ph"
  note q = quiet_env_sel(4) [of cw ch pw ph]
  have Hpos: "0 < ?H" using cw ch pw by (simp add: scaledHeight_def)
  have N: "1 \<le> nat \<lceil>?H / ph\<rceil>"
    using ceiling_pos_nat [of "?H / ph"] Hpos ph by simp
  have "1 \<le> pages new_jsPDF" by (simp add: new_jsPDF_def)
  note loop = while_remainingHeight_quiet [OF q quiet_env_sel(5) ph refl this,
      where rem = "?H" and w = pw and pos = 0]
  have eq: "write_document ?e oid \<lparr>canvas_width = cw, canvas_height = ch\<rparr> =
     (case while_remainingHeight ?e (Fin ph) (Fin pw) (Fin 0) (Fin ?H) new_jsPDF of
        None \<Rightarrow> None
      | Some (Inl err) \<Rightarrow> Some (Inl err)
      | Some (Inr d1) \<Rightarrow> Some (save ?e d1 (''Invoice-'' @ oid @ ''.pdf'')))"
    using cw by (simp add: write_document_def Let_def quiet_env_sel scaledHeight_def)
  show ?thesis
    unfolding eq loop
    using N by (simp add: save_def quiet_env_sel new_jsPDF_def)
qed



section \<open>What the handlers leave behind\<close>

lemma finally_block_sel:
  "download (finally_block st r) = download r"
  "console_error (finally_block st r) = console_error r"
  "alerts (finally_block st r) = alerts r"
  by (simp_all add: finally_block_def)

lemma declared_plain_style: "declared plain_style = []"
  by (simp add: declared_def plain_style_def)

lemma restore_all: "st
                 \<lparr>style_position := a1, style_left := a2, style_top := a3,
                  style_width := a4, style_maxWidth := a5, style_zIndex := a6,
                  style_transform := a7\<rparr>
                 \<lparr>style_position := style_position st,
                  style_left := style_left st,
                  style_top := style_top st,
                  style_width := style_width st,
                  style_maxWidth := style_maxWidth st,
                  style_zIndex := style_zIndex st,
                  style_transform := style_transform st\<rparr> = (st :: style)"
  by (cases st) simp

lemma restore_two: "st\<lparr>style_width := a, style_maxWidth := b\<rparr>
     \<lparr>style_width := style_width st, style_maxWidth := style_maxWidth st\<rparr> = (st :: style)"
  by (cases st) simp

lemma handleDownloadPDF_cases:
  "handleDownloadPDF e oid (Some st) =
     (case try_block e oid of
        None \<Rightarrow> None
      | Some (Inl error) \<Rightarrow>
          Some \<lparr>element_style =
                  Some (if declared st = [] then st
                        else st\<lparr>style_position := ''absolute'', style_left := ''-9999px'',
                                style_top := ''0'', style_width := ''794px'',
                                style_maxWidth := ''none'', style_zIndex := ''-1'',
                                style_transform := ''scale(1)''\<rparr>),
                download = None,
                console_error = [''Error generating PDF:'', error],
                alerts = [''Gagal membuat PDF. Silakan coba lagi.''],
                rejected = (if declared st = [] then None else Some ''TypeError'')\<rparr>
      | Some (Inr file) \<Rightarrow>
          Some \<lparr>element_style =
                  Some (if declared st = [] then st
                        else st\<lparr>style_position := ''absolute'', style_left := ''-9999px'',
                                style_top := ''0'', style_width := ''794px'',
                                style_maxWidth := ''none'', style_zIndex := ''-1'',
                                style_transform := ''scale(1)''\<rparr>),
                download = Some file, console_error = [], alerts = [],
                rejected = (if declared st = [] then None else Some ''TypeError'')\<rparr>)"
  by (simp add: handleDownloadPDF_def finally_block_def Let_def restore_all
        split: option.split sum.split)

lemma handleDownloadPDF_part_001_cases:
  "handleDownloadPDF_part_001 e oid (Some st) =
     (case html2canvas e of
        Inl err \<Rightarrow>
          Some \<lparr>element_style = Some (st\<lparr>style_width := ''100%'', style_maxWidth := ''none''\<rparr>),
                download = None, console_error = [], alerts = [], rejected = Some err\<rparr>
      | Inr canvas \<Rightarrow>
          (case write_document e oid canvas of
             None \<Rightarrow> None
           | Some (Inl err) \<Rightarrow>
               Some \<lparr>element_style = Some st, download = None,
                     console_error = [], alerts = [], rejected = Some err\<rparr>
           | Some (Inr file) \<Rightarrow>
               Some \<lparr>element_style = Some st, download = Some file,
                     console_error = [], alerts = [], rejected = None\<rparr>))"
  by (simp add: handleDownloadPDF_part_001_def Let_def restore_two split: option.split sum.split)

lemma download_handleDownloadPDF:
  "map_option download (handleDownloadPDF e oid (Some st)) =
     (case try_block e oid of
        None \<Rightarrow> None
      | Some (Inl error) \<Rightarrow> Some None
      | Some (Inr file) \<Rightarrow> Some (Some file))"
  by (simp add: handleDownloadPDF_cases split: option.split sum.split)

lemma saved_document_handleDownloadPDF:
  "try_block e oid = Some (Inr (name, d)) \<Longrightarrow>
     saved_document (handleDownloadPDF e oid (Some st)) = Some d"
  by (simp add: saved_document_def handleDownloadPDF_cases)

lemma saved_document_handleDownloadPDF_part_001:
  "html2canvas e = Inr c \<Longrightarrow> write_document e oid c = Some (Inr (name, d)) \<Longrightarrow>
     saved_document (handleDownloadPDF_part_001 e oid (Some st)) = Some d"
  by (simp add: saved_document_def handleDownloadPDF_part_001_cases)

lemma saved_filename_handleDownloadPDF:
  "try_block e oid = Some (Inr (name, d)) \<Longrightarrow>
     saved_filename (handleDownloadPDF e oid (Some st)) = Some name"
  by (simp add: saved_filename_def handleDownloadPDF_cases)

lemma saved_filename_handleDownloadPDF_part_001:
  "html2canvas e = Inr c \<Longrightarrow> write_document e oid c = Some (Inr (name, d)) \<Longrightarrow>
     saved_filename (handleDownloadPDF_part_001 e oid (Some st)) = Some name"
  by (simp add: saved_filename_def handleDownloadPDF_part_001_cases)

lemma saved_document_quiet:
  assumes "0 < cw" and "0 < ch" and "0 < pw" and "0 < ph"
  shows "saved_document (handleDownloadPDF (quiet_env cw ch pw ph) oid (Some st)) =
    Some \<lparr>pages = nat \<lceil>scaledHeight cw ch pw / ph\<rceil>,
       images = map (\<lambda>k. \<lparr>page_index = k, img_x = Fin 0, img_y = Fin (- (of_nat k * ph)),
                           img_width = Fin pw, img_height = Fin (scaledHeight cw ch pw)\<rparr>)
                    [0..<nat \<lceil>scaledHeight cw ch pw / ph\<rceil>]\<rparr>"
  by (rule saved_document_handleDownloadPDF [OF try_block_quiet [OF assms]])

lemma saved_document_part_001_quiet:
  assumes "0 < cw" and "0 < ch" and "0 < pw" and "0 < ph"
  shows "saved_document (handleDownloadPDF_part_001 (quiet_env cw ch pw ph) oid (Some st)) =
    Some \<lparr>pages = nat \<lceil>scaledHeight cw ch pw / ph\<rceil>,
       images = map (\<lambda>k. \<lparr>page_index = k, img_x = Fin 0, img_y = Fin (- (of_nat k * ph)),
                           img_width = Fin pw,
                           img_height = Fin (min (scaledHeight cw ch pw - of_nat k * ph) ph)\<rparr>)
                    [0..<nat \<lceil>scaledHeight cw ch pw / ph\<rceil>]\<rparr>"
  by (rule saved_document_handleDownloadPDF_part_001
        [OF quiet_env_sel(1) write_document_quiet [OF assms]])



lemma upt_2: "[0..<2] = [0, Suc 0]"
  by (simp add: numeral_2_eq_2)










section \<open>The pagination plan\<close>




lemma left_794_2200:
  "round_double (2505690065427015 / 8796093022208) = Fin (2505690065427015 / 8796093022208)"
  "round_double (- (106749562168761 / 8796093022208)) = Fin (- (106749562168761 / 8796093022208))"
  "round_double (- 297) = Fin (- 297)"
  "round_double (- 594) = Fin (- 594)"
  using round_double_dyadic [of 2505690065427015 43] round_double_dyadic [of "- 106749562168761" 43]
    round_double_int [of "- 297"] round_double_int [of "- 594"]
  by simp_all

lemma try_block_double_794_2200:
  "try_block (double_env 794 2200 210 297) oid =
    Some (Inr (''Invoice-'' @ toUpperCase (substring 0 8 oid) @ ''.pdf'',
      \<lparr>pages = 2, images = [
        \<lparr>page_index = 0, img_x = Fin 0, img_y = Fin 0, img_width = Fin 210,
         img_height = Fin (5118129693022791 / 8796093022208)\<rparr>,
        \<lparr>page_index = 1, img_x = Fin 0, img_y = Fin (- 297), img_width = Fin 210,
         img_height = Fin (5118129693022791 / 8796093022208)\<rparr>]\<rparr>))"
  by (simp add: try_block_def Let_def double_env_sel addImage_def new_jsPDF_def save_def
        height_794_2200 while_heightLeft_step while_heightLeft_stop left_794_2200
        del: js_div.simps)

lemma write_document_double_794_2200:
  "write_document (double_env 794 2200 210 297) oid \<lparr>canvas_width = 794, canvas_height = 2200\<rparr> =
    Some (Inr (''Invoice-'' @ oid @ ''.pdf'',
      \<lparr>pages = 2, images = [
        \<lparr>page_index = 0, img_x = Fin 0, img_y = Fin 0, img_width = Fin 210, img_height = Fin 297\<rparr>,
        \<lparr>page_index = 1, img_x = Fin 0, img_y = Fin (- 297), img_width = Fin 210,
         img_height = Fin (2505690065427015 / 8796093022208)\<rparr>]\<rparr>))"
  by (simp add: write_document_def Let_def double_env_sel new_jsPDF_def save_def
        height_part_001_794_2200 while_remainingHeight_step while_remainingHeight_stop
        left_794_2200
        del: js_div.simps js_mul.simps)

text \<open>
  Claim C2 on the handler of part_001, at the canvas of the claim's example, 794 by
  2200 on a page of 210 by 297: the image is drawn with the height \<open>heightToPrint\<close>,
  not with its scaled height. The first placement squeezes the whole image into the 297
  of the first page; the second draws it at the offset \<open>- 297\<close> with a height below 297,
  which ends above the top edge of the second page. The handler of types.ts draws both
  placements with the scaled height the doubles give, 581.86.
\<close>

theorem part_001_draw_height:
  "saved_document (handleDownloadPDF_part_001 (double_env 794 2200 210 297)
       ''3f2a9c1e-7b4d-4e2a-9f3c-1a2b3c4d5e6f'' (Some plain_style)) =
     Some \<lparr>pages = 2, images = [
        \<lparr>page_index = 0, img_x = Fin 0, img_y = Fin 0, img_width = Fin 210, img_height = Fin 297\<rparr>,
        \<lparr>page_index = 1, img_x = Fin 0, img_y = Fin (- 297), img_width = Fin 210,
         img_height = Fin (2505690065427015 / 8796093022208)\<rparr>]\<rparr>
   \<and> (- 297 + 2505690065427015 / 8796093022208 :: rat) < 0
   \<and> saved_document (handleDownloadPDF (double_env 794 2200 210 297)
       ''3f2a9c1e-7b4d-4e2a-9f3c-1a2b3c4d5e6f'' (Some plain_style)) =
     Some \<lparr>pages = 2, images = [
        \<lparr>page_index = 0, img_x = Fin 0, img_y = Fin 0, img_width = Fin 210,
         img_height = Fin (5118129693022791 / 8796093022208)\<rparr>,
        \<lparr>page_index = 1, img_x = Fin 0, img_y = Fin (- 297), img_width = Fin 210,
         img_height = Fin (5118129693022791 / 8796093022208)\<rparr>]\<rparr>
   \<and> round_double (scaledHeight 794 2200 210) = Fin (5118129693022791 / 8796093022208)"
  by (simp add: saved_document_handleDownloadPDF [OF try_block_double_794_2200]
        saved_document_handleDownloadPDF_part_001 [OF double_env_sel(1) write_document_double_794_2200]
        scaledHeight_def round_double_231000_397)

text \<open>
  Claim C3: there is an input, with a scaled height that is not a multiple of the page
  height (794 by 2200 on a 210 by 297 page), on which the two handlers draw different
  sequences of placements, in exact arithmetic and in double arithmetic alike. The
  offsets agree; the draw heights differ.
\<close>

theorem variants_differ:
  "(\<exists>sourceWidth sourceHeight pageWidth pageHeight psA psB.
      0 < sourceWidth \<and> 0 < sourceHeight \<and> 0 < pageWidth \<and> 0 < pageHeight
    \<and> \<not> (\<exists>m :: nat. scaledHeight sourceWidth sourceHeight pageWidth = of_nat m * pageHeight)
    \<and> map_option images (saved_document (handleDownloadPDF
          (quiet_env sourceWidth sourceHeight pageWidth pageHeight) order_id (Some st))) = Some psA
    \<and> map_option images (saved_document (handleDownloadPDF_part_001
          (quiet_env sourceWidth sourceHeight pageWidth pageHeight) order_id (Some st))) = Some psB
    \<and> psA \<noteq> psB)
   \<and> (\<exists>psA psB.
      map_option images (saved_document (handleDownloadPDF
          (double_env 794 2200 210 297) order_id (Some st))) = Some psA
    \<and> map_option images (saved_document (handleDownloadPDF_part_001
          (double_env 794 2200 210 297) order_id (Some st))) = Some psB
    \<and> psA \<noteq> psB)"
proof -
  have c: "\<lceil>7000 / 3573 :: rat\<rceil> = 2" by (simp add: ceiling_eq_iff)
  have H: "scaledHeight 794 2200 210 = 231000 / 397" by (simp add: scaledHeight_def)
  have nm: "\<not> (\<exists>m :: nat. scaledHeight 794 2200 210 = of_nat m * 297)"
  proof
    assume "\<exists>m :: nat. scaledHeight 794 2200 210 = of_nat m * 297"
    then obtain m :: nat where "(231000 :: rat) / 397 = of_nat m * 297" by (auto simp: H)
    then have "rat_of_nat (m * 117909) = rat_of_nat 231000" by simp
    then have eq: "m * 117909 = 231000" by (simp only: of_nat_eq_iff)
    show False
    proof (cases "m \<le> 1")
      case True
      then have "m * 117909 \<le> 1 * 117909" by (intro mult_le_mono1)
      with eq show False by simp
    next
      case False
      then have "2 * 117909 \<le> m * 117909" by (intro mult_le_mono1) simp
      with eq show False by simp
    qed
  qed
  let ?A = "[\<lparr>page_index = 0, img_x = Fin 0, img_y = Fin 0, img_width = Fin 210,
                img_height = Fin (231000 / 397)\<rparr>,
             \<lparr>page_index = 1, img_x = Fin 0, img_y = Fin (- 297), img_width = Fin 210,
               img_height = Fin (231000 / 397)\<rparr>]"
  let ?B = "[\<lparr>page_index = 0, img_x = Fin 0, img_y = Fin 0, img_width = Fin 210, img_height = Fin 297\<rparr>,
      \<lparr>page_index = 1, img_x = Fin 0, img_y = Fin (- 297), img_width = Fin 210,
       img_height = Fin (113091 / 397)\<rparr>]"
  have A: "map_option images (saved_document (handleDownloadPDF
          (quiet_env 794 2200 210 297) order_id (Some st))) = Some ?A"
    by (simp add: saved_document_quiet H c upt_2)
  have B: "map_option images (saved_document (handleDownloadPDF_part_001
          (quiet_env 794 2200 210 297) order_id (Some st))) = Some ?B"
    by (simp add: saved_document_part_001_quiet H c upt_2)
  have "?A \<noteq> ?B" by simp
  with nm A B have exact: "\<exists>sourceWidth sourceHeight pageWidth pageHeight psA psB.
      0 < sourceWidth \<and> 0 < sourceHeight \<and> 0 < pageWidth \<and> 0 < pageHeight
    \<and> \<not> (\<exists>m :: nat. scaledHeight sourceWidth sourceHeight pageWidth = of_nat m * pageHeight)
    \<and> map_option images (saved_document (handleDownloadPDF
          (quiet_env sourceWidth sourceHeight pageWidth pageHeight) order_id (Some st))) = Some psA
    \<and> map_option images (saved_document (handleDownloadPDF_part_001
          (quiet_env sourceWidth sourceHeight pageWidth pageHeight) order_id (Some st))) = Some psB
    \<and> psA \<noteq> psB"
    by (intro exI [of _ 794] exI [of _ 2200] exI [of _ 210] exI [of _ 297] exI [of _ ?A] exI [of _ ?B]) simp
  have double: "\<exists>psA psB.
      map_option images (saved_document (handleDownloadPDF
          (double_env 794 2200 210 297) order_id (Some st))) = Some psA
    \<and> map_option images (saved_document (handleDownloadPDF_part_001
          (double_env 794 2200 210 297) order_id (Some st))) = Some psB
    \<and> psA \<noteq> psB"
    by (simp add: saved_document_handleDownloadPDF [OF try_block_double_794_2200]
        saved_document_handleDownloadPDF_part_001 [OF double_env_sel(1) write_document_double_794_2200])
  from exact double show ?thesis by (rule conjI)
qed

section \<open>The export file name\<close>

lemma substring_0_8: "substring 0 8 s = take 8 s"
  by (cases "8 \<le> length s") (simp_all add: substring_def Let_def min_def)

lemma saved_filename_quiet:
  assumes "0 < cw" and "0 < ch" and "0 < pw" and "0 < ph"
  shows "saved_filename (handleDownloadPDF (quiet_env cw ch pw ph) oid (Some st)) =
    Some (''Invoice-'' @ toUpperCase (substring 0 8 oid) @ ''.pdf'')"
  by (rule saved_filename_handleDownloadPDF [OF try_block_quiet [OF assms]])

lemma saved_filename_part_001_quiet:
  assumes "0 < cw" and "0 < ch" and "0 < pw" and "0 < ph"
  shows "saved_filename (handleDownloadPDF_part_001 (quiet_env cw ch pw ph) oid (Some st)) =
    Some (''Invoice-'' @ oid @ ''.pdf'')"
  by (rule saved_filename_handleDownloadPDF_part_001
        [OF quiet_env_sel(1) write_document_quiet [OF assms]])

lemma saved_filename_double:
  "saved_filename (handleDownloadPDF (double_env 794 2200 210 297) oid (Some st)) =
    Some (''Invoice-'' @ toUpperCase (substring 0 8 oid) @ ''.pdf'')"
  by (rule saved_filename_handleDownloadPDF [OF try_block_double_794_2200])

lemma saved_filename_part_001_double:
  "saved_filename (handleDownloadPDF_part_001 (double_env 794 2200 210 297) oid (Some st)) =
    Some (''Invoice-'' @ oid @ ''.pdf'')"
  by (rule saved_filename_handleDownloadPDF_part_001
        [OF double_env_sel(1) write_document_double_794_2200])

lemma try_block_filename:
  "try_block e oid = Some (Inr (name, d)) \<Longrightarrow>
     name = ''Invoice-'' @ toUpperCase (substring 0 8 oid) @ ''.pdf''"
  by (auto simp: try_block_def save_def Let_def split: sum.splits option.splits)

lemma write_document_filename:
  "write_document e oid c = Some (Inr (name, d)) \<Longrightarrow> name = ''Invoice-'' @ oid @ ''.pdf''"
  by (auto simp: write_document_def save_def Let_def split: sum.splits option.splits)

lemma saved_filename_any:
  "saved_filename (handleDownloadPDF e oid ref) = None \<or>
   saved_filename (handleDownloadPDF e oid ref) =
     Some (''Invoice-'' @ toUpperCase (substring 0 8 oid) @ ''.pdf'')"
proof (cases ref)
  case None
  then show ?thesis by (simp add: saved_filename_def handleDownloadPDF_def)
next
  case (Some st)
  show ?thesis
    unfolding Some handleDownloadPDF_cases
    by (auto simp: saved_filename_def dest: try_block_filename split: option.splits sum.splits)
qed

lemma saved_filename_part_001_any:
  "saved_filename (handleDownloadPDF_part_001 e oid ref) = None \<or>
   saved_filename (handleDownloadPDF_part_001 e oid ref) = Some (''Invoice-'' @ oid @ ''.pdf'')"
proof (cases ref)
  case None
  then show ?thesis by (simp add: saved_filename_def handleDownloadPDF_part_001_def)
next
  case (Some st)
  show ?thesis
    unfolding Some handleDownloadPDF_part_001_cases
    by (auto simp: saved_filename_def dest: write_document_filename split: option.splits sum.splits)
qed

lemma toUpperCase_hex: "toUpperCase ''3f2a9c1e'' = ''3F2A9C1E''"
  by code_simp



text \<open>
  Claim C7, as stated, fails on the handler of part_001: it saves under the whole order
  id, in the case the id has, not under its first 8 characters in upper case.
\<close>

theorem part_001_filename_counterexample:
  "\<not> (saved_filename (handleDownloadPDF_part_001 (quiet_env 794 2200 210 297)
          ''3f2a9c1e-7b4d-4e2a-9f3c-1a2b3c4d5e6f'' (Some plain_style)) =
        Some (''Invoice-'' @ toUpperCase (substring 0 8 ''3f2a9c1e-7b4d-4e2a-9f3c-1a2b3c4d5e6f'') @ ''.pdf''))
   \<and> \<not> (saved_filename (handleDownloadPDF_part_001 (double_env 794 2200 210 297)
          ''3f2a9c1e-7b4d-4e2a-9f3c-1a2b3c4d5e6f'' (Some plain_style)) =
        Some (''Invoice-'' @ toUpperCase (substring 0 8 ''3f2a9c1e-7b4d-4e2a-9f3c-1a2b3c4d5e6f'') @ ''.pdf''))"
  by (simp add: saved_filename_part_001_quiet saved_filename_part_001_double substring_0_8
        toUpperCase_hex)

text \<open>
  Claim C7, amended: the handler of types.ts saves the document as \<open>Invoice-\<close>, the
  first 8 characters of the order id in upper case, \<open>.pdf\<close>; the handler of part_001
  saves it as \<open>Invoice-\<close>, the whole order id unchanged, \<open>.pdf\<close>. Each handler saves
  under that name on a run in which nothing throws, and under no other name on any run.
\<close>

theorem export_filename:
  assumes "0 < sourceWidth" and "0 < sourceHeight" and "0 < pageWidth" and "0 < pageHeight"
  shows "saved_filename (handleDownloadPDF
            (quiet_env sourceWidth sourceHeight pageWidth pageHeight) order_id (Some st)) =
           Some (''Invoice-'' @ toUpperCase (substring 0 8 order_id) @ ''.pdf'')
       \<and> saved_filename (handleDownloadPDF_part_001
            (quiet_env sourceWidth sourceHeight pageWidth pageHeight) order_id (Some st)) =
           Some (''Invoice-'' @ order_id @ ''.pdf'')
       \<and> (saved_filename (handleDownloadPDF e order_id ref) = None
          \<or> saved_filename (handleDownloadPDF e order_id ref) =
               Some (''Invoice-'' @ toUpperCase (substring 0 8 order_id) @ ''.pdf''))
       \<and> (saved_filename (handleDownloadPDF_part_001 e order_id ref) = None
          \<or> saved_filename (handleDownloadPDF_part_001 e order_id ref) =
               Some (''Invoice-'' @ order_id @ ''.pdf''))
       \<and> saved_filename (handleDownloadPDF (double_env 794 2200 210 297) order_id (Some st)) =
           Some (''Invoice-'' @ toUpperCase (substring 0 8 order_id) @ ''.pdf'')
       \<and> saved_filename (handleDownloadPDF_part_001 (double_env 794 2200 210 297)
            order_id (Some st)) =
           Some (''Invoice-'' @ order_id @ ''.pdf'')"
  using saved_filename_quiet [OF assms] saved_filename_part_001_quiet [OF assms]
    saved_filename_any saved_filename_part_001_any
    saved_filename_double saved_filename_part_001_double
  by blast

theorem export_filename_witness:
  "saved_filename (handleDownloadPDF (quiet_env 794 2200 210 297)
      ''3f2a9c1e-7b4d-4e2a-9f3c-1a2b3c4d5e6f'' (Some plain_style)) = Some ''Invoice-3F2A9C1E.pdf''
   \<and> saved_filename (handleDownloadPDF_part_001 (quiet_env 794 2200 210 297)
      ''3f2a9c1e-7b4d-4e2a-9f3c-1a2b3c4d5e6f'' (Some plain_style)) =
        Some ''Invoice-3f2a9c1e-7b4d-4e2a-9f3c-1a2b3c4d5e6f.pdf''
   \<and> saved_filename (handleDownloadPDF (double_env 794 2200 210 297)
      ''3f2a9c1e-7b4d-4e2a-9f3c-1a2b3c4d5e6f'' (Some plain_style)) = Some ''Invoice-3F2A9C1E.pdf''"
  using export_filename [of 794 2200 210 297 "''3f2a9c1e-7b4d-4e2a-9f3c-1a2b3c4d5e6f''" plain_style]
  by (simp add: substring_0_8 toUpperCase_hex)



section \<open>Failed captures and the style of the invoice element\<close>

lemma try_block_capture_throws:
  "html2canvas e = Inl err \<Longrightarrow> try_block e oid = Some (Inl err)"
  by (simp add: try_block_def)

lemma try_block_addImage_throws:
  "html2canvas e = Inr c \<Longrightarrow> throws e ToDataURL = None \<Longrightarrow>
     (\<forall>p. throws e (AddImage p) = Some err) \<Longrightarrow> try_block e oid = Some (Inl err)"
  by (simp add: try_block_def Let_def addImage_def)

lemma write_document_zero_height:
  assumes "throws e ToDataURL = None"
    and "throws e (Save (''Invoice-'' @ oid @ ''.pdf'')) = None"
    and "number e 0 = Fin 0"
  shows "write_document e oid \<lparr>canvas_width = cw, canvas_height = 0\<rparr> =
    Some (Inr (''Invoice-'' @ oid @ ''.pdf'', \<lparr>pages = 1, images = []\<rparr>))"
  using assms
  by (simp add: write_document_def Let_def new_jsPDF_def save_def while_remainingHeight_stop)

lemma try_block_zero_width:
  assumes "html2canvas e = Inr \<lparr>canvas_width = 0, canvas_height = ch\<rparr>"
    and "0 < ch" and "0 < getWidth e" and "number e 0 = Fin 0"
  shows "try_block e oid \<noteq> Some (Inr file)"
proof
  assume saved: "try_block e oid = Some (Inr file)"
  let ?p = "\<lparr>page_index = 0, img_x = Fin 0, img_y = Fin 0, img_width = Fin (getWidth e),
              img_height = PInf\<rparr>"
  from saved assms obtain r where
    "while_heightLeft e (Fin (getHeight e)) (Fin (getWidth e)) PInf PInf
       \<lparr>pages = 1, images = [?p]\<rparr> = Some (Inr r)"
    by (auto simp: try_block_def Let_def addImage_def new_jsPDF_def
          split: option.splits sum.splits)
  from while_heightLeft_PInf [OF this] show False by simp
qed

lemma write_document_zero_width:
  assumes "number e (of_nat ch * getWidth e) = Fin y" and "0 < y"
  shows "write_document e oid \<lparr>canvas_width = 0, canvas_height = ch\<rparr> \<noteq> Some (Inr file)"
proof
  assume saved: "write_document e oid \<lparr>canvas_width = 0, canvas_height = ch\<rparr> = Some (Inr file)"
  from saved assms obtain r where
    "while_remainingHeight e (Fin (getHeight e)) (Fin (getWidth e)) (Fin 0) PInf new_jsPDF =
       Some (Inr r)"
    by (auto simp: write_document_def Let_def split: option.splits sum.splits)
  from while_remainingHeight_PInf [OF this] show False by simp
qed

lemma saved_document_None:
  assumes "\<And>f. try_block e oid \<noteq> Some (Inr f)"
  shows "saved_document (handleDownloadPDF e oid ref) = None"
proof (cases ref)
  case None
  then show ?thesis by (simp add: saved_document_def handleDownloadPDF_def)
next
  case (Some st)
  show ?thesis
    unfolding Some handleDownloadPDF_cases
    using assms by (auto simp: saved_document_def split: option.splits sum.splits)
qed

lemma saved_document_part_001_None:
  assumes "html2canvas e = Inr c" and "\<And>f. write_document e oid c \<noteq> Some (Inr f)"
  shows "saved_document (handleDownloadPDF_part_001 e oid ref) = None"
proof (cases ref)
  case None
  then show ?thesis by (simp add: saved_document_def handleDownloadPDF_part_001_def)
next
  case (Some st)
  show ?thesis
    unfolding Some handleDownloadPDF_part_001_cases
    using assms by (auto simp: saved_document_def split: option.splits sum.splits)
qed

text \<open>
  Claim C8, as stated, fails on the handler of part_001 for a capture of height 0: the
  handler does not look at the size of the canvas, its loop draws nothing, and it goes
  on to call \<open>pdf.save\<close> with an empty one-page document, also when jsPDF would let no
  call of \<open>addImage\<close> through.
\<close>

theorem zero_height_capture_counterexample:
  "saved_document (handleDownloadPDF_part_001 (double_env 2382 0 210 297)
      ''3f2a9c1e-7b4d-4e2a-9f3c-1a2b3c4d5e6f'' (Some plain_style)) =
     Some \<lparr>pages = 1, images = []\<rparr>
   \<and> saved_document (handleDownloadPDF_part_001 (double_env 0 0 210 297)
      ''3f2a9c1e-7b4d-4e2a-9f3c-1a2b3c4d5e6f'' (Some plain_style)) =
     Some \<lparr>pages = 1, images = []\<rparr>
   \<and> map_option download (handleDownloadPDF_part_001
        \<lparr>html2canvas = Inr \<lparr>canvas_width = 2382, canvas_height = 0\<rparr>,
         getWidth = 210, getHeight = 297,
         throws = (\<lambda>c. case c of AddImage p \<Rightarrow> Some ''Error'' | _ \<Rightarrow> None),
         number = round_double\<rparr>
        ''3f2a9c1e-7b4d-4e2a-9f3c-1a2b3c4d5e6f'' (Some plain_style)) =
     Some (Some (''Invoice-3f2a9c1e-7b4d-4e2a-9f3c-1a2b3c4d5e6f.pdf'',
                 \<lparr>pages = 1, images = []\<rparr>))"
proof -
  have z: "round_double 0 = Fin 0" by (simp add: round_double_def)
  show ?thesis
    by (simp add: saved_document_def handleDownloadPDF_part_001_cases double_env_sel
        write_document_zero_height z)
qed

text \<open>
  Claim C8, amended. When \<open>html2canvas\<close> throws, no handler calls \<open>pdf.save\<close>: the
  handler of types.ts catches the error, logs it, alerts the user and, the element
  having no inline style, returns normally; the handler of part_001 lets its promise be
  rejected with the error. No handler checks the size of the canvas, and there is no
  error kind of its own for a failed export. The handler of types.ts hands the image to
  \<open>addImage\<close> whatever its size, and when \<open>addImage\<close> throws it reports that like a failed
  capture and saves nothing. The handler of part_001, for a canvas of height 0, draws
  nothing and saves an empty one-page document. For a canvas of width 0 and positive
  height no handler ever saves.
\<close>

theorem failed_capture:
  "(html2canvas e = Inl err \<longrightarrow>
      handleDownloadPDF e order_id (Some plain_style) =
        Some \<lparr>element_style = Some plain_style, download = None,
              console_error = [''Error generating PDF:'', err],
              alerts = [''Gagal membuat PDF. Silakan coba lagi.''], rejected = None\<rparr>
      \<and> map_option download (handleDownloadPDF e order_id (Some st)) = Some None
      \<and> map_option alerts (handleDownloadPDF e order_id (Some st)) =
          Some [''Gagal membuat PDF. Silakan coba lagi.'']
      \<and> handleDownloadPDF_part_001 e order_id (Some st) =
        Some \<lparr>element_style = Some (st\<lparr>style_width := ''100%'', style_maxWidth := ''none''\<rparr>),
              download = None, console_error = [], alerts = [], rejected = Some err\<rparr>)
   \<and> (html2canvas e = Inr c \<and> throws e ToDataURL = None
        \<and> (\<forall>p. throws e (AddImage p) = Some err) \<longrightarrow>
      handleDownloadPDF e order_id (Some plain_style) =
        Some \<lparr>element_style = Some plain_style, download = None,
              console_error = [''Error generating PDF:'', err],
              alerts = [''Gagal membuat PDF. Silakan coba lagi.''], rejected = None\<rparr>
      \<and> map_option download (handleDownloadPDF e order_id (Some st)) = Some None)
   \<and> (html2canvas e = Inr \<lparr>canvas_width = sourceWidth, canvas_height = 0\<rparr>
        \<and> throws e ToDataURL = None
        \<and> throws e (Save (''Invoice-'' @ order_id @ ''.pdf'')) = None
        \<and> number e 0 = Fin 0 \<longrightarrow>
      saved_document (handleDownloadPDF_part_001 e order_id (Some st)) =
        Some \<lparr>pages = 1, images = []\<rparr>)
   \<and> (html2canvas e = Inr \<lparr>canvas_width = 0, canvas_height = sourceHeight\<rparr>
        \<and> 0 < sourceHeight \<and> 0 < getWidth e \<and> number e 0 = Fin 0
        \<and> number e (of_nat sourceHeight * getWidth e) = Fin y \<and> 0 < y \<longrightarrow>
      saved_document (handleDownloadPDF e order_id (Some st)) = None
      \<and> saved_document (handleDownloadPDF_part_001 e order_id (Some st)) = None)"
proof (intro conjI impI)
  assume "html2canvas e = Inl err"
  then show "handleDownloadPDF e order_id (Some plain_style) =
        Some \<lparr>element_style = Some plain_style, download = None,
              console_error = [''Error generating PDF:'', err],
              alerts = [''Gagal membuat PDF. Silakan coba lagi.''], rejected = None\<rparr>"
    "map_option download (handleDownloadPDF e order_id (Some st)) = Some None"
    "map_option alerts (handleDownloadPDF e order_id (Some st)) =
          Some [''Gagal membuat PDF. Silakan coba lagi.'']"
    "handleDownloadPDF_part_001 e order_id (Some st) =
        Some \<lparr>element_style = Some (st\<lparr>style_width := ''100%'', style_maxWidth := ''none''\<rparr>),
              download = None, console_error = [], alerts = [], rejected = Some err\<rparr>"
    by (simp_all add: handleDownloadPDF_cases handleDownloadPDF_part_001_cases
          try_block_capture_throws declared_plain_style)
next
  assume "html2canvas e = Inr c \<and> throws e ToDataURL = None
        \<and> (\<forall>p. throws e (AddImage p) = Some err)"
  then have "try_block e order_id = Some (Inl err)"
    by (intro try_block_addImage_throws) simp_all
  then show "handleDownloadPDF e order_id (Some plain_style) =
        Some \<lparr>element_style = Some plain_style, download = None,
              console_error = [''Error generating PDF:'', err],
              alerts = [''Gagal membuat PDF. Silakan coba lagi.''], rejected = None\<rparr>"
    "map_option download (handleDownloadPDF e order_id (Some st)) = Some None"
    by (simp_all add: handleDownloadPDF_cases declared_plain_style)
next
  assume a: "html2canvas e = Inr \<lparr>canvas_width = sourceWidth, canvas_height = 0\<rparr>
        \<and> throws e ToDataURL = None
        \<and> throws e (Save (''Invoice-'' @ order_id @ ''.pdf'')) = None
        \<and> number e 0 = Fin 0"
  then have "write_document e order_id \<lparr>canvas_width = sourceWidth, canvas_height = 0\<rparr> =
      Some (Inr (''Invoice-'' @ order_id @ ''.pdf'', \<lparr>pages = 1, images = []\<rparr>))"
    by (intro write_document_zero_height) simp_all
  with a show "saved_document (handleDownloadPDF_part_001 e order_id (Some st)) =
        Some \<lparr>pages = 1, images = []\<rparr>"
    by (simp add: saved_document_handleDownloadPDF_part_001)
next
  assume a: "html2canvas e = Inr \<lparr>canvas_width = 0, canvas_height = sourceHeight\<rparr>
        \<and> 0 < sourceHeight \<and> 0 < getWidth e \<and> number e 0 = Fin 0
        \<and> number e (of_nat sourceHeight * getWidth e) = Fin y \<and> 0 < y"
  then have "try_block e order_id \<noteq> Some (Inr f)" for f
    by (intro try_block_zero_width [where ch = sourceHeight]) simp_all
  then show "saved_document (handleDownloadPDF e order_id (Some st)) = None"
    by (rule saved_document_None)
  from a have "write_document e order_id \<lparr>canvas_width = 0, canvas_height = sourceHeight\<rparr>
      \<noteq> Some (Inr f)" for f
    by (intro write_document_zero_width [where y = y]) simp_all
  with a show "saved_document (handleDownloadPDF_part_001 e order_id (Some st)) = None"
    by (intro saved_document_part_001_None [where c = "\<lparr>canvas_width = 0, canvas_height = sourceHeight\<rparr>"])
      simp_all
qed

theorem failed_capture_witness:
  "handleDownloadPDF \<lparr>html2canvas = Inl ''SecurityError'', getWidth = 210, getHeight = 297,
        throws = (\<lambda>_. None), number = round_double\<rparr>
      ''3f2a9c1e-7b4d-4e2a-9f3c-1a2b3c4d5e6f'' (Some plain_style) =
     Some \<lparr>element_style = Some plain_style, download = None,
           console_error = [''Error generating PDF:'', ''SecurityError''],
           alerts = [''Gagal membuat PDF. Silakan coba lagi.''], rejected = None\<rparr>
   \<and> handleDownloadPDF
       \<lparr>html2canvas = Inr \<lparr>canvas_width = 1588, canvas_height = 0\<rparr>,
        getWidth = 210, getHeight = 297,
        throws = (\<lambda>c. case c of AddImage p \<Rightarrow> Some ''Error'' | _ \<Rightarrow> None),
        number = round_double\<rparr>
      ''3f2a9c1e-7b4d-4e2a-9f3c-1a2b3c4d5e6f'' (Some plain_style) =
     Some \<lparr>element_style = Some plain_style, download = None,
           console_error = [''Error generating PDF:'', ''Error''],
           alerts = [''Gagal membuat PDF. Silakan coba lagi.''], rejected = None\<rparr>
   \<and> saved_document (handleDownloadPDF_part_001 (double_env 2382 0 210 297)
        ''3f2a9c1e-7b4d-4e2a-9f3c-1a2b3c4d5e6f'' (Some plain_style)) = Some \<lparr>pages = 1, images = []\<rparr>
   \<and> saved_document (handleDownloadPDF (double_env 0 2200 210 297)
        ''3f2a9c1e-7b4d-4e2a-9f3c-1a2b3c4d5e6f'' (Some plain_style)) = None
   \<and> saved_document (handleDownloadPDF_part_001 (double_env 0 2200 210 297)
        ''3f2a9c1e-7b4d-4e2a-9f3c-1a2b3c4d5e6f'' (Some plain_style)) = None"
proof -
  have z: "round_double 0 = Fin 0" by (simp add: round_double_def)
  have p: "round_double 462000 = Fin 462000" using round_double_int [of 462000] by simp
  show ?thesis
    using failed_capture [of "\<lparr>html2canvas = Inl ''SecurityError'', getWidth = 210, getHeight = 297,
          throws = (\<lambda>_. None), number = round_double\<rparr>" "''SecurityError''"
          "''3f2a9c1e-7b4d-4e2a-9f3c-1a2b3c4d5e6f''" plain_style]
      failed_capture [of "\<lparr>html2canvas = Inr \<lparr>canvas_width = 1588, canvas_height = 0\<rparr>,
          getWidth = 210, getHeight = 297,
          throws = (\<lambda>c. case c of AddImage p \<Rightarrow> Some ''Error'' | _ \<Rightarrow> None),
          number = round_double\<rparr>" "''Error''"
          "''3f2a9c1e-7b4d-4e2a-9f3c-1a2b3c4d5e6f''" plain_style
          "\<lparr>canvas_width = 1588, canvas_height = 0\<rparr>"]
      failed_capture [of "double_env 2382 0 210 297" _
          "''3f2a9c1e-7b4d-4e2a-9f3c-1a2b3c4d5e6f''" plain_style _ 2382]
      failed_capture [of "double_env 0 2200 210 297" _
          "''3f2a9c1e-7b4d-4e2a-9f3c-1a2b3c4d5e6f''" plain_style _ _ 2200 462000]
    by (simp add: double_env_sel z p)
qed

text \<open>
  Claim C9 on the handler of part_001, at a capture that throws: lines 53 and 54, which
  put the saved width and maxWidth back, are never reached, and the element keeps the
  width \<open>100%\<close> and the maxWidth \<open>none\<close>.
\<close>

theorem part_001_style_left_mutated:
  "handleDownloadPDF_part_001 \<lparr>html2canvas = Inl ''SecurityError'', getWidth = 210, getHeight = 297,
        throws = (\<lambda>_. None), number = round_double\<rparr>
      ''3f2a9c1e-7b4d-4e2a-9f3c-1a2b3c4d5e6f'' (Some plain_style) =
     Some \<lparr>element_style = Some (plain_style\<lparr>style_width := ''100%'', style_maxWidth := ''none''\<rparr>),
           download = None, console_error = [], alerts = [], rejected = Some ''SecurityError''\<rparr>
   \<and> plain_style\<lparr>style_width := ''100%'', style_maxWidth := ''none''\<rparr> \<noteq> plain_style"
  by (simp add: handleDownloadPDF_part_001_cases plain_style_def)

text \<open>
  The handler of types.ts puts the style back in its \<open>finally\<close> when the element had
  no inline declaration, as the invoice element is rendered: whenever it returns, the
  style is the one it found. On an element with an inline declaration the \<open>finally\<close>
  throws and the style stays as the handler changed it. The handler of part_001 puts
  the style back when the capture resolved.
\<close>

lemma handleDownloadPDF_restores_style:
  "declared st = [] \<Longrightarrow> handleDownloadPDF e oid (Some st) = Some r \<Longrightarrow>
     element_style r = Some st \<and> rejected r = None"
  by (auto simp: handleDownloadPDF_cases split: option.splits sum.splits)

lemma handleDownloadPDF_finally_throws:
  "declared st \<noteq> [] \<Longrightarrow> handleDownloadPDF e oid (Some st) = Some r \<Longrightarrow>
     rejected r = Some ''TypeError'' \<and>
     element_style r =
       Some (st\<lparr>style_position := ''absolute'', style_left := ''-9999px'',
                style_top := ''0'', style_width := ''794px'',
                style_maxWidth := ''none'', style_zIndex := ''-1'',
                style_transform := ''scale(1)''\<rparr>)"
  by (auto simp: handleDownloadPDF_cases split: option.splits sum.splits)

lemma handleDownloadPDF_part_001_restores_style:
  "handleDownloadPDF_part_001 e oid (Some st) = Some r \<Longrightarrow> html2canvas e = Inr c \<Longrightarrow>
     element_style r = Some st"
  by (auto simp: handleDownloadPDF_part_001_cases split: option.splits sum.splits)

section \<open>Subtotals, totals and the monthly summary\<close>

lemma round2_nonneg:
  assumes "0 \<le> x"
  shows "0 \<le> round2 x"
    and "\<exists>k::int. round2 x = of_int k / 100"
    and "\<bar>round2 x - x\<bar> \<le> 1 / 200"
    and "\<bar>round2 x - x\<bar> = 1 / 200 \<longrightarrow> \<bar>x\<bar> < \<bar>round2 x\<bar>"
proof -
  let ?k = "\<lfloor>x * 100 + 1 / 2\<rfloor>"
  have r: "round2 x = of_int ?k / 100" using assms by (simp add: round2_def)
  have lo: "of_int ?k \<le> x * 100 + 1 / 2" by (rule of_int_floor_le)
  have hi: "x * 100 + 1 / 2 < of_int ?k + 1" using floor_correct [of "x * 100 + 1 / 2"] by simp
  have "0 \<le> ?k" using assms by simp
  then show "0 \<le> round2 x" by (simp add: r)
  show "\<exists>k::int. round2 x = of_int k / 100" using r by blast
  have a: "rat_of_int ?k / 100 - x \<le> 1 / 200" using lo by linarith
  have b: "- (1 / 200) < rat_of_int ?k / 100 - x" using hi by linarith
  show "\<bar>round2 x - x\<bar> \<le> 1 / 200" unfolding r using a b by linarith
  show "\<bar>round2 x - x\<bar> = 1 / 200 \<longrightarrow> \<bar>x\<bar> < \<bar>round2 x\<bar>"
    unfolding r using a b assms by linarith
qed

lemma floor_add_half: "\<lfloor>rat_of_int z + 1 / 2\<rfloor> = z"
  by (rule floor_unique) simp_all

lemma round2_of_int:
  assumes "0 \<le> z"
  shows "round2 (of_int z) = of_int z"
proof -
  have "rat_of_int z * 100 + 1 / 2 = rat_of_int (z * 100) + 1 / 2" by simp
  then have "\<lfloor>rat_of_int z * 100 + 1 / 2\<rfloor> = z * 100" by (simp only: floor_add_half)
  then show ?thesis using assms by (simp add: round2_def)
qed

lemma round2_numeral: "round2 (numeral w) = numeral w"
  using round2_of_int [of "numeral w"] by simp

lemma round2_0: "round2 0 = 0"
  using round2_of_int [of 0] by simp

text \<open>
  Claim C4: for a quantity of at least 1, a daily rate of at least 0 and at least 1 day,
  the subtotal is not negative and is the product quantity * daily_rate * days
  rounded to 2 decimal places, half away from zero: a multiple of 1/100 within 1/200
  of the product, and the one of larger magnitude when two are that near. Values outside
  the domain give InvalidInput. \<open>subtotal(2, 150000, 3) = 900000\<close>.
\<close>

theorem subtotal_rounded_product:
  "(1 \<le> qty \<and> 0 \<le> rate \<and> 1 \<le> n \<longrightarrow>
      (\<exists>v. subtotal qty rate n = Inr v \<and> 0 \<le> v \<and> (\<exists>k::int. v = of_int k / 100)
         \<and> \<bar>v - of_int qty * rate * of_int n\<bar> \<le> 1 / 200
         \<and> (\<bar>v - of_int qty * rate * of_int n\<bar> = 1 / 200 \<longrightarrow>
              \<bar>of_int qty * rate * of_int n\<bar> < \<bar>v\<bar>)))
   \<and> (\<not> (1 \<le> qty \<and> 0 \<le> rate \<and> 1 \<le> n) \<longrightarrow> subtotal qty rate n = Inl InvalidInput)
   \<and> subtotal 2 150000 3 = Inr 900000"
proof (intro conjI impI)
  assume dom: "1 \<le> qty \<and> 0 \<le> rate \<and> 1 \<le> n"
  let ?p = "of_int qty * rate * of_int n"
  have p: "0 \<le> ?p" using dom by simp
  have s: "subtotal qty rate n = Inr (round2 ?p)" using dom by (simp add: subtotal_def)
  show "\<exists>v. subtotal qty rate n = Inr v \<and> 0 \<le> v \<and> (\<exists>k::int. v = of_int k / 100)
         \<and> \<bar>v - ?p\<bar> \<le> 1 / 200 \<and> (\<bar>v - ?p\<bar> = 1 / 200 \<longrightarrow> \<bar>?p\<bar> < \<bar>v\<bar>)"
    using round2_nonneg [OF p] s by blast
next
  assume "\<not> (1 \<le> qty \<and> 0 \<le> rate \<and> 1 \<le> n)"
  then show "subtotal qty rate n = Inl InvalidInput" by (simp add: subtotal_def)
next
  show "subtotal 2 150000 3 = Inr 900000" by (simp add: subtotal_def round2_numeral)
qed

theorem subtotal_rounded_product_witness:
  "subtotal 2 150000 3 = Inr 900000
   \<and> (\<exists>v. subtotal 1 (1 / 200) 1 = Inr v \<and> 0 \<le> v \<and> (\<exists>k::int. v = of_int k / 100)
         \<and> \<bar>v - 1 / 200\<bar> \<le> 1 / 200)
   \<and> subtotal 1 (1 / 200) 1 = Inr (1 / 100)
   \<and> subtotal 0 150000 3 = Inl InvalidInput
   \<and> subtotal 1 (- 5) 3 = Inl InvalidInput"
proof -
  have tie: "subtotal 1 (1 / 200) 1 = Inr (1 / 100)" by (simp add: subtotal_def round2_def)
  from subtotal_rounded_product [of 1 "1 / 200" 1]
  have "\<exists>v. subtotal 1 (1 / 200) 1 = Inr v \<and> 0 \<le> v \<and> (\<exists>k::int. v = of_int k / 100)
         \<and> \<bar>v - 1 / 200\<bar> \<le> 1 / 200" by auto
  then show ?thesis
    using subtotal_rounded_product [of 0 150000 3] subtotal_rounded_product [of 1 "- 5" 3] tie
    by simp
qed

lemma sum_subtotals_eq:
  "sum_subtotals items =
     (if list_all valid_item items
      then Inr (sum_list (map (\<lambda>item. round2 (of_int (quantity item) * daily_rate item * of_int (days item))) items))
      else Inl InvalidInput)"
  by (induction items) (auto simp: subtotal_def valid_item_def)

lemma total_eq:
  "total items =
     (if list_all valid_item items
      then Inr (round2 (sum_list (map (\<lambda>item. round2 (of_int (quantity item) * daily_rate item * of_int (days item))) items)))
      else Inl InvalidInput)"
  by (simp add: total_def sum_subtotals_eq)

lemma sum_list_map_mset:
  fixes f :: "'a \<Rightarrow> rat"
  assumes "mset xs = mset ys"
  shows "sum_list (map f xs) = sum_list (map f ys)"
proof -
  have "sum_list (map f xs) = sum_mset (image_mset f (mset xs))"
    by (simp flip: sum_mset_sum_list)
  also have "\<dots> = sum_mset (image_mset f (mset ys))" by (simp add: assms)
  also have "\<dots> = sum_list (map f ys)" by (simp flip: sum_mset_sum_list)
  finally show ?thesis .
qed

lemma list_all_mset:
  assumes "mset xs = mset ys"
  shows "list_all P xs = list_all P ys"
  using mset_eq_setD [OF assms] by (simp add: list_all_iff)

text \<open>
  Claim C5: the total of a list of items is the rounded sum of the subtotals computed
  from the items, it does not change when the list is permuted, and the total of the
  empty list is 0. A list with an item outside the domain gives InvalidInput.
\<close>

theorem total_rounded_sum:
  "total [] = Inr 0
   \<and> (list_all valid_item items \<longrightarrow>
        total items = Inr (round2 (sum_list (map (\<lambda>item.
            round2 (of_int (quantity item) * daily_rate item * of_int (days item))) items))))
   \<and> (\<not> list_all valid_item items \<longrightarrow> total items = Inl InvalidInput)
   \<and> (mset items' = mset items \<longrightarrow> total items' = total items)"
proof (intro conjI impI)
  show "total [] = Inr 0" by (simp add: total_def round2_0)
next
  assume "mset items' = mset items"
  then show "total items' = total items"
    unfolding total_eq
    using list_all_mset [of items' items valid_item] sum_list_map_mset [of items' items]
    by simp
qed (simp_all add: total_eq)

theorem total_rounded_sum_witness:
  "total [\<lparr>car_type = ''Avanza'', quantity = 2, daily_rate = 150000, days = 3\<rparr>,
          \<lparr>car_type = ''Innova'', quantity = 1, daily_rate = 250000, days = 1\<rparr>] = Inr 1150000
   \<and> total [\<lparr>car_type = ''Innova'', quantity = 1, daily_rate = 250000, days = 1\<rparr>,
            \<lparr>car_type = ''Avanza'', quantity = 2, daily_rate = 150000, days = 3\<rparr>] = Inr 1150000
   \<and> total [\<lparr>car_type = ''Avanza'', quantity = 0, daily_rate = 150000, days = 3\<rparr>] = Inl InvalidInput"
  using total_rounded_sum [of "[\<lparr>car_type = ''Avanza'', quantity = 2, daily_rate = 150000, days = 3\<rparr>,
          \<lparr>car_type = ''Innova'', quantity = 1, daily_rate = 250000, days = 1\<rparr>]"
          "[\<lparr>car_type = ''Innova'', quantity = 1, daily_rate = 250000, days = 1\<rparr>,
            \<lparr>car_type = ''Avanza'', quantity = 2, daily_rate = 150000, days = 3\<rparr>]"]
    total_rounded_sum [of "[\<lparr>car_type = ''Avanza'', quantity = 0, daily_rate = 150000, days = 3\<rparr>]" "[]"]
  by (simp add: valid_item_def round2_numeral)

lemma keys_summarize: "map row_key (summarize orders) = sort (remdups (map month_key orders))"
  by (simp add: summarize_def row_key_def comp_def case_prod_beta)

text \<open>
  Claim C6: the monthly summary has exactly one row for each (year, month) of an order
  date in the input and none for other months, in strictly ascending order; each row
  counts the orders of its month and adds their stored totals. Orders of 500000 and
  300000 in January and of 700000 in February give a January row with count 2 and
  revenue 800000 and a February row with count 1 and revenue 700000.
\<close>

theorem summarize_rows:
  "sorted_wrt (<) (map row_key (summarize orders))
   \<and> set (map row_key (summarize orders)) = month_key ` set orders
   \<and> list_all (\<lambda>r. order_count r = length (filter (\<lambda>ord. month_key ord = row_key r) orders)
              \<and> total_revenue r =
                  sum_list (map total_amount (filter (\<lambda>ord. month_key ord = row_key r) orders))
              \<and> 0 < order_count r)
       (summarize orders)
   \<and> summarize
       [\<lparr>customer_name = ''Budi'', order_date = \<lparr>date_year = 2024, date_month = 1, date_day = 5\<rparr>,
          total_amount = 500000\<rparr>,
        \<lparr>customer_name = ''Sari'', order_date = \<lparr>date_year = 2024, date_month = 2, date_day = 11\<rparr>,
          total_amount = 700000\<rparr>,
        \<lparr>customer_name = ''Andi'', order_date = \<lparr>date_year = 2024, date_month = 1, date_day = 20\<rparr>,
          total_amount = 300000\<rparr>] =
       [\<lparr>year = 2024, month = 1, order_count = 2, total_revenue = 800000\<rparr>,
        \<lparr>year = 2024, month = 2, order_count = 1, total_revenue = 700000\<rparr>]"
proof (intro conjI)
  show "sorted_wrt (<) (map row_key (summarize orders))"
    by (simp add: keys_summarize strict_sorted_iff)
  show "set (map row_key (summarize orders)) = month_key ` set orders"
    by (simp add: keys_summarize)
  show "list_all (\<lambda>r. order_count r = length (filter (\<lambda>ord. month_key ord = row_key r) orders)
              \<and> total_revenue r =
                  sum_list (map total_amount (filter (\<lambda>ord. month_key ord = row_key r) orders))
              \<and> 0 < order_count r)
       (summarize orders)"
    by (auto simp: list_all_iff summarize_def row_key_def filter_empty_conv split: prod.splits)
  show "summarize
       [\<lparr>customer_name = ''Budi'', order_date = \<lparr>date_year = 2024, date_month = 1, date_day = 5\<rparr>,
          total_amount = 500000\<rparr>,
        \<lparr>customer_name = ''Sari'', order_date = \<lparr>date_year = 2024, date_month = 2, date_day = 11\<rparr>,
          total_amount = 700000\<rparr>,
        \<lparr>customer_name = ''Andi'', order_date = \<lparr>date_year = 2024, date_month = 1, date_day = 20\<rparr>,
          total_amount = 300000\<rparr>] =
       [\<lparr>year = 2024, month = 1, order_count = 2, total_revenue = 800000\<rparr>,
        \<lparr>year = 2024, month = 2, order_count = 1, total_revenue = 700000\<rparr>]"
    by (simp add: summarize_def month_key_def)
qed

end
